theory Spec2Isabelle
  imports Complex_Main
begin

section \<open>Data model (the enums and \<open>HandState\<close>, at the head of src/types.ts)\<close>

text \<open>
  JavaScript numbers are modelled as reals: arithmetic is exact, and rounding, NaN and
  infinities are outside the model. Counters that only ever hold non-negative integers
  are naturals.
\<close>

datatype TreeMode = CHAOS | FORMED | GRID

datatype GestureType = FIST | OPEN | PINCH | VICTORY | NONE

text \<open>A point \<open>{ x: number; y: number }\<close>; the fields are named \<open>xc\<close> and \<open>yc\<close>.\<close>

record XY =
  xc :: real
  yc :: real

record HandState =
  detected :: bool
  gesture :: GestureType
  position :: XY
  landmarks :: "XY list"

text \<open>\<open>Partial<HandState>\<close>: every key may be absent.\<close>

record HandStatePartial =
  detectedP :: "bool option"
  gestureP :: "GestureType option"
  positionP :: "XY option"
  landmarksP :: "XY list option"

section \<open>The store (\<open>useStore\<close>, in src/unnamed/part_000)\<close>

record AppState =
  mode :: TreeMode
  handState :: HandState
  videoReady :: bool
  photos :: "string list"

definition initialStore :: AppState where
  "initialStore =
     \<lparr> mode = FORMED,
       handState = \<lparr> detected = False, gesture = NONE,
                     position = \<lparr> xc = 0, yc = 0 \<rparr>, landmarks = [] \<rparr>,
       videoReady = False,
       photos = [] \<rparr>"

text \<open>The object spread \<open>{ ...state.handState, ...partial }\<close>.\<close>

definition spread :: "HandState \<Rightarrow> HandStatePartial \<Rightarrow> HandState" where
  "spread h p =
     \<lparr> detected = (case detectedP p of Some d \<Rightarrow> d | None \<Rightarrow> detected h),
       gesture = (case gestureP p of Some g \<Rightarrow> g | None \<Rightarrow> gesture h),
       position = (case positionP p of Some q \<Rightarrow> q | None \<Rightarrow> position h),
       landmarks = (case landmarksP p of Some l \<Rightarrow> l | None \<Rightarrow> landmarks h) \<rparr>"

text \<open>The \<open>switch\<close> of \<open>setHandState\<close>; it has no default branch.\<close>

fun switchGesture :: "GestureType \<Rightarrow> TreeMode \<Rightarrow> TreeMode" where
  "switchGesture OPEN m = CHAOS"
| "switchGesture FIST m = FORMED"
| "switchGesture PINCH m = GRID"
| "switchGesture g m = m"

definition setHandState :: "HandStatePartial \<Rightarrow> AppState \<Rightarrow> AppState" where
  "setHandState partial state =
     (let newState = spread (handState state) partial;
          newMode = (if detected newState then switchGesture (gesture newState) (mode state)
                     else mode state)
      in state \<lparr> handState := newState, mode := newMode \<rparr>)"

definition toggleMode :: "AppState \<Rightarrow> AppState" where
  "toggleMode state = state \<lparr> mode := (if mode state = FORMED then CHAOS else FORMED) \<rparr>"

definition setVideoReady :: "bool \<Rightarrow> AppState \<Rightarrow> AppState" where
  "setVideoReady ready state = state \<lparr> videoReady := ready \<rparr>"

definition setPhotos :: "string list \<Rightarrow> AppState \<Rightarrow> AppState" where
  "setPhotos ps state = state \<lparr> photos := ps \<rparr>"

section \<open>Gesture controller (\<open>GestureController\<close>, in src/components/PhotoUploader.tsx)\<close>

text \<open>The hand skeleton: bones as pairs of keypoint indices, four per finger.\<close>

definition CONNECTIONS :: "(nat \<times> nat) list" where
  "CONNECTIONS =
     [(0, 1), (1, 2), (2, 3), (3, 4),
      (0, 5), (5, 6), (6, 7), (7, 8),
      (0, 9), (9, 10), (10, 11), (11, 12),
      (0, 13), (13, 14), (14, 15), (15, 16),
      (0, 17), (17, 18), (18, 19), (19, 20),
      (5, 9), (9, 13), (13, 17)]"

text \<open>
  The rows of \<open>CONNECTIONS\<close> the source labels \<open>Index\<close> and \<open>Middle\<close>, and
  the base joint of a finger: the keypoint its first bone reaches from the wrist.
\<close>

definition indexBones :: "(nat \<times> nat) list" where
  "indexBones = take 4 (drop 4 CONNECTIONS)"

definition middleBones :: "(nat \<times> nat) list" where
  "middleBones = take 4 (drop 8 CONNECTIONS)"

definition baseJoint :: "(nat \<times> nat) list \<Rightarrow> nat" where
  "baseJoint bones = snd (hd bones)"

text \<open>The refs of the component: the throttle clock and the debounce state.\<close>

record Refs =
  lastProcessRef :: real
  pendingGestureRef :: GestureType
  gestureCountRef :: nat

definition initialRefs :: Refs where
  "initialRefs = \<lparr> lastProcessRef = 0, pendingGestureRef = NONE, gestureCountRef = 0 \<rparr>"

definition GESTURE_CONFIRM_THRESHOLD :: nat where
  "GESTURE_CONFIRM_THRESHOLD = 5"

text \<open>\<open>Math.hypot\<close> of two arguments.\<close>

definition hypot :: "real \<Rightarrow> real \<Rightarrow> real" where
  "hypot a b = sqrt (a\<^sup>2 + b\<^sup>2)"

text \<open>The helper \<open>dist\<close> of \<open>predictWebcam\<close>, over the keypoints of one hand.\<close>

definition distIdx :: "XY list \<Rightarrow> nat \<Rightarrow> nat \<Rightarrow> real" where
  "distIdx lms idx1 idx2 =
     hypot (xc (lms ! idx1) - xc (lms ! idx2)) (yc (lms ! idx1) - yc (lms ! idx2))"

definition isThumbUp :: "XY list \<Rightarrow> bool" where
  "isThumbUp lms = (distIdx lms 4 0 > distIdx lms 3 0 * 1.1)"

definition isIndexUp :: "XY list \<Rightarrow> bool" where
  "isIndexUp lms = (distIdx lms 8 0 > distIdx lms 6 0 * 1.1)"

definition isMiddleUp :: "XY list \<Rightarrow> bool" where
  "isMiddleUp lms = (distIdx lms 12 0 > distIdx lms 10 0 * 1.1)"

definition isRingUp :: "XY list \<Rightarrow> bool" where
  "isRingUp lms = (distIdx lms 16 0 > distIdx lms 14 0 * 1.1)"

definition isPinkyUp :: "XY list \<Rightarrow> bool" where
  "isPinkyUp lms = (distIdx lms 20 0 > distIdx lms 18 0 * 1.1)"

definition fingersUp :: "XY list \<Rightarrow> nat" where
  "fingersUp lms =
     (if isThumbUp lms then 1 else 0) + (if isIndexUp lms then 1 else 0) +
     (if isMiddleUp lms then 1 else 0) + (if isRingUp lms then 1 else 0) +
     (if isPinkyUp lms then 1 else 0)"

definition pinchDist :: "XY list \<Rightarrow> real" where
  "pinchDist lms = distIdx lms 4 8"

definition isPinch :: "XY list \<Rightarrow> bool" where
  "isPinch lms = (pinchDist lms < 0.05)"

text \<open>The \<open>if\<close>/\<open>else if\<close> chain that assigns \<open>detectedGesture\<close>.\<close>

definition detectedGesture :: "XY list \<Rightarrow> GestureType" where
  "detectedGesture lms =
     (if fingersUp lms \<ge> 4 then OPEN
      else if isIndexUp lms \<and> isMiddleUp lms \<and> \<not> isRingUp lms \<and> \<not> isPinkyUp lms then VICTORY
      else if isPinch lms then PINCH
      else if fingersUp lms \<le> 1 then FIST
      else NONE)"

text \<open>The debounce step on the two refs.\<close>

definition debounce :: "GestureType \<Rightarrow> Refs \<Rightarrow> Refs" where
  "debounce g r =
     (if g = pendingGestureRef r then r \<lparr> gestureCountRef := gestureCountRef r + 1 \<rparr>
      else r \<lparr> gestureCountRef := 0, pendingGestureRef := g \<rparr>)"

text \<open>
  Reading \<open>landmarks[k].x\<close> with \<open>k\<close> beyond the array throws a TypeError, which the
  \<open>try\<close>/\<open>catch\<close> around the detection turns into a logged error. The five finger
  tests read the indices up to 20 before anything is written, so a hand of fewer than 21
  keypoints fails with the refs and the store untouched.
\<close>

datatype error = PredictionError

definition trackHand :: "XY list \<Rightarrow> Refs \<times> AppState \<Rightarrow> error + Refs \<times> AppState" where
  "trackHand lms rs =
     (case rs of (r, s) \<Rightarrow>
        if length lms < 21 then Inl PredictionError
        else
          let g = detectedGesture lms;
              r' = debounce g r;
              x = (1 - xc (lms ! 9)) * 2 - 1;
              y = - (yc (lms ! 9) * 2 - 1);
              simpleLandmarks = map (\<lambda>l. \<lparr> xc = xc l, yc = yc l \<rparr>) lms
          in if gestureCountRef r' > GESTURE_CONFIRM_THRESHOLD
             then Inr (r', setHandState
                    \<lparr> detectedP = Some True, gestureP = Some g,
                      positionP = Some \<lparr> xc = x, yc = y \<rparr>,
                      landmarksP = Some simpleLandmarks \<rparr> s)
             else Inr (r', setHandState
                    \<lparr> detectedP = Some True, gestureP = None,
                      positionP = Some \<lparr> xc = x, yc = y \<rparr>,
                      landmarksP = Some simpleLandmarks \<rparr> s))"

text \<open>
  One detector update: \<open>result\<close> is \<open>result.landmarks\<close>, the hands the detector
  found (none or one, each a list of keypoints).
\<close>

definition onResult :: "XY list list \<Rightarrow> Refs \<times> AppState \<Rightarrow> Refs \<times> AppState" where
  "onResult result rs =
     (case result of
        lms # _ \<Rightarrow> (case trackHand lms rs of Inl e \<Rightarrow> rs | Inr rs' \<Rightarrow> rs')
      | [] \<Rightarrow>
          (case rs of (r, s) \<Rightarrow>
             (r \<lparr> gestureCountRef := 0 \<rparr>,
              setHandState
                \<lparr> detectedP = Some False, gestureP = Some NONE,
                  positionP = None, landmarksP = Some [] \<rparr> s)))"

text \<open>
  \<open>predictWebcam\<close> at time \<open>now\<close>, with the video at \<open>currentTime\<close>: at most one
  detection every 33 ms. \<open>ready\<close> says whether the video element and the landmarker
  exist; \<open>detection\<close> is what \<open>detectForVideo\<close> would return for the frame, \<open>None\<close>
  when it throws (the \<open>catch\<close> logs the error and changes nothing).
\<close>

definition predictWebcam ::
  "bool \<Rightarrow> real \<Rightarrow> real \<Rightarrow> XY list list option \<Rightarrow> Refs \<times> AppState \<Rightarrow> Refs \<times> AppState" where
  "predictWebcam ready now currentTime detection rs =
     (case rs of (r, s) \<Rightarrow>
        if \<not> ready then rs
        else if now - lastProcessRef r > 33
        then (let r1 = r \<lparr> lastProcessRef := now \<rparr>
              in if currentTime > 0
                 then (case detection of
                         None \<Rightarrow> (r1, s)
                       | Some result \<Rightarrow> onResult result (r1, s))
                 else (r1, s))
        else rs)"

text \<open>A stream of detector updates, each showing one hand.\<close>

definition feedHands :: "XY list list \<Rightarrow> Refs \<times> AppState \<Rightarrow> Refs \<times> AppState" where
  "feedHands hands rs = fold (\<lambda>lms. onResult [lms]) hands rs"

section \<open>The mix accumulator (\<open>Ornaments\<close>, in src/components/GestureTrail.tsx)\<close>

text \<open>\<open>THREE.MathUtils.lerp\<close>, as three.js defines it.\<close>

definition lerp :: "real \<Rightarrow> real \<Rightarrow> real \<Rightarrow> real" where
  "lerp a b t = (1 - t) * a + t * b"

definition physicsSpeed :: "real \<Rightarrow> real" where
  "physicsSpeed weight = 2.0 * (1.0 - weight * 0.5)"

text \<open>
  One frame of \<open>Ornaments\<close> on \<open>lerpVal\<close>, the only state the component keeps between
  frames (the instance matrices are recomputed from it on every frame). \<open>mounted\<close> says
  whether \<open>meshRef.current\<close> is set.
\<close>

definition ornamentsFrame :: "bool \<Rightarrow> TreeMode \<Rightarrow> real \<Rightarrow> real \<Rightarrow> real \<Rightarrow> real" where
  "ornamentsFrame mounted m weight delta lerpVal =
     (if \<not> mounted then lerpVal
      else let targetLerp = (if m = CHAOS then 1 else 0)
           in lerp lerpVal targetLerp (delta * physicsSpeed weight))"

section \<open>Drag and inertia (\<open>TreeGroup\<close>, in src/types.ts)\<close>

text \<open>
  \<open>groupRef\<close> holds \<open>rotation.y\<close> of the group once it is mounted, \<open>None\<close> before.
\<close>

record TreeGroup =
  groupRef :: "real option"
  isDragging :: bool
  previousMouseX :: real
  velocity :: real

definition handlePointerDown :: "real \<Rightarrow> TreeGroup \<Rightarrow> TreeGroup" where
  "handlePointerDown clientX t =
     t \<lparr> isDragging := True, previousMouseX := clientX, velocity := 0 \<rparr>"

definition handlePointerMove :: "real \<Rightarrow> TreeGroup \<Rightarrow> TreeGroup" where
  "handlePointerMove clientX t =
     (if \<not> isDragging t then t
      else let deltaX = clientX - previousMouseX t;
               v = deltaX * 0.005
           in t \<lparr> previousMouseX := clientX, velocity := v,
                  groupRef := (case groupRef t of None \<Rightarrow> None
                               | Some rot \<Rightarrow> Some (rot + v)) \<rparr>)"

definition handlePointerUp :: "TreeGroup \<Rightarrow> TreeGroup" where
  "handlePointerUp t = t \<lparr> isDragging := False \<rparr>"

text \<open>The \<open>useFrame\<close> callback of \<open>TreeGroup\<close>, reading the hand state of the store.\<close>

definition treeGroupFrame :: "HandState \<Rightarrow> real \<Rightarrow> TreeGroup \<Rightarrow> TreeGroup" where
  "treeGroupFrame h delta t =
     (case groupRef t of
        None \<Rightarrow> t
      | Some rot \<Rightarrow>
          if gesture h = VICTORY
          then t \<lparr> groupRef := Some (rot - delta * 0.3), velocity := 0 \<rparr>
          else if \<not> isDragging t
          then (if \<bar>velocity t\<bar> > 0.0001
                then t \<lparr> groupRef := Some (rot + velocity t), velocity := velocity t * 0.95 \<rparr>
                else t \<lparr> velocity := 0 \<rparr>)
          else t)"

text \<open>A run of frames, one \<open>(hand state, delta)\<close> pair per frame.\<close>

definition treeGroupFrames :: "(HandState \<times> real) list \<Rightarrow> TreeGroup \<Rightarrow> TreeGroup" where
  "treeGroupFrames fs t = fold (\<lambda>(h, delta). treeGroupFrame h delta) fs t"

section \<open>Layout generation\<close>

text \<open>
  \<open>THREE.Vector3\<close> as a triple, with \<open>distanceTo\<close>. \<open>Math.random\<close> is a sequence
  \<open>rnd\<close> of numbers read through a cursor: the \<open>k\<close>-th call returns \<open>rnd k\<close>.
\<close>

type_synonym Vector3 = "real \<times> real \<times> real"

definition distanceTo :: "Vector3 \<Rightarrow> Vector3 \<Rightarrow> real" where
  "distanceTo a b =
     (case a of (ax, ay, az) \<Rightarrow> case b of (bx, by, bz) \<Rightarrow>
        sqrt ((ax - bx)\<^sup>2 + (ay - by)\<^sup>2 + (az - bz)\<^sup>2))"

subsection \<open>Ornaments (\<open>ornamentGroups\<close> of \<open>Scene\<close>, in src/types.ts)\<close>

definition TREE_HEIGHT :: real where
  "TREE_HEIGHT = 16"

definition TREE_RADIUS :: real where
  "TREE_RADIUS = 6"

record OrnamentConfig =
  cfgId :: string
  cfgType :: string
  cfgCount :: nat
  cfgColor :: string
  cfgWeight :: real
  cfgScale :: real

definition configs :: "OrnamentConfig list" where
  "configs =
     [\<lparr> cfgId = ''gold'', cfgType = ''ball'', cfgCount = 250, cfgColor = ''#FFD700'',
        cfgWeight = 0.2, cfgScale = 0.35 \<rparr>,
      \<lparr> cfgId = ''red'', cfgType = ''ball'', cfgCount = 180, cfgColor = ''#8B0000'',
        cfgWeight = 0.2, cfgScale = 0.3 \<rparr>,
      \<lparr> cfgId = ''silver'', cfgType = ''ball'', cfgCount = 100, cfgColor = ''#C0C0C0'',
        cfgWeight = 0.2, cfgScale = 0.2 \<rparr>,
      \<lparr> cfgId = ''box'', cfgType = ''box'', cfgCount = 60, cfgColor = ''#222'',
        cfgWeight = 0.8, cfgScale = 0.6 \<rparr>]"

record Occupied =
  pos :: Vector3
  radius :: real

text \<open>The data of one group; \<open>THREE.Euler\<close> angles are a triple as well.\<close>

record OrnamentData =
  targetPositions :: "Vector3 list"
  chaosPositions :: "Vector3 list"
  randomRotations :: "Vector3 list"

text \<open>
  The variables the loop over one config writes: the three arrays of its group, the
  occupied positions shared by all configs, and the cursor of the random source.
\<close>

record Placing = OrnamentData +
  occupiedPositions :: "Occupied list"
  cursor :: nat

text \<open>The candidate \<open>pos.set(...)\<close> drawn with the two random numbers at cursor \<open>k\<close>.\<close>

definition candidate :: "(nat \<Rightarrow> real) \<Rightarrow> nat \<Rightarrow> Vector3" where
  "candidate rnd k =
     (let yNorm = rnd k;
          y = (yNorm - 0.5) * TREE_HEIGHT;
          r = ((1 - yNorm) * TREE_RADIUS) + 0.5;
          angle = rnd (k + 1) * pi * 2
      in (r * cos angle, y, r * sin angle))"

text \<open>The \<open>for (const other of occupiedPositions)\<close> loop with its \<open>break\<close>.\<close>

fun collision :: "Vector3 \<Rightarrow> real \<Rightarrow> Occupied list \<Rightarrow> bool" where
  "collision p myRadius [] = False"
| "collision p myRadius (other # rest) =
     (if distanceTo p (pos other) < myRadius + radius other then True
      else collision p myRadius rest)"

text \<open>
  The \<open>while (!valid && attempts < 100)\<close> loop; it returns the cursor, \<open>pos\<close>,
  \<open>attempts\<close> and \<open>valid\<close>.
\<close>

function tryPlace ::
  "(nat \<Rightarrow> real) \<Rightarrow> real \<Rightarrow> Occupied list \<Rightarrow> nat \<Rightarrow> Vector3 \<Rightarrow> nat \<Rightarrow> bool
     \<Rightarrow> nat \<times> Vector3 \<times> nat \<times> bool" where
  "tryPlace rnd myRadius occ k p attempts valid =
     (if \<not> valid \<and> attempts < 100
      then (let p' = candidate rnd k
            in tryPlace rnd myRadius occ (k + 2) p' (attempts + 1)
                 (\<not> collision p' myRadius occ))
      else (k, p, attempts, valid))"
  by pat_completeness auto
termination
  by (relation "measure (\<lambda>(rnd, myRadius, occ, k, p, attempts, valid).
        (100 - attempts) + (if valid then 0 else 1))") auto

declare tryPlace.simps [simp del]

text \<open>The body of \<open>for (let i = 0; i < config.count; i++)\<close>.\<close>

definition placeOne :: "(nat \<Rightarrow> real) \<Rightarrow> real \<Rightarrow> Placing \<Rightarrow> Placing" where
  "placeOne rnd myRadius st =
     (case tryPlace rnd myRadius (occupiedPositions st) (cursor st) (0, 0, 0) 0 False of
        (k, p, attempts, valid) \<Rightarrow>
          if valid
          then (let rChaos = 10 + rnd k * 15;
                    theta = rnd (k + 1) * pi * 2;
                    phi = arccos (2 * rnd (k + 2) - 1)
                in st \<lparr> targetPositions := targetPositions st @ [p],
                        occupiedPositions :=
                          occupiedPositions st @ [\<lparr> pos = p, radius = myRadius \<rparr>],
                        chaosPositions := chaosPositions st @
                          [(rChaos * sin phi * cos theta, rChaos * sin phi * sin theta,
                            rChaos * cos phi)],
                        randomRotations := randomRotations st @
                          [(rnd (k + 3) * pi, rnd (k + 4) * pi, 0)],
                        cursor := k + 5 \<rparr>)
          else st \<lparr> cursor := k \<rparr>)"

function placeLoop :: "(nat \<Rightarrow> real) \<Rightarrow> real \<Rightarrow> nat \<Rightarrow> nat \<Rightarrow> Placing \<Rightarrow> Placing" where
  "placeLoop rnd myRadius n i st =
     (if i < n then placeLoop rnd myRadius n (i + 1) (placeOne rnd myRadius st) else st)"
  by pat_completeness auto
termination
  by (relation "measure (\<lambda>(rnd, myRadius, n, i, st). n - i)") auto

declare placeLoop.simps [simp del]

text \<open>
  The generator's state between configs: the cursor, the occupied positions and the
  \<open>groups\<close> record, keyed by the config's id.
\<close>

record Generator =
  genCursor :: nat
  genOccupied :: "Occupied list"
  groups :: "string \<rightharpoonup> OrnamentData"

text \<open>The callback of \<open>configs.forEach\<close>.\<close>

definition placeConfig :: "(nat \<Rightarrow> real) \<Rightarrow> OrnamentConfig \<Rightarrow> Generator \<Rightarrow> Generator" where
  "placeConfig rnd config g =
     (let myRadius = cfgScale config * 1.1;
          st = placeLoop rnd myRadius (cfgCount config) 0
                 \<lparr> targetPositions = [], chaosPositions = [], randomRotations = [],
                   occupiedPositions = genOccupied g, cursor = genCursor g \<rparr>
      in \<lparr> genCursor = cursor st,
           genOccupied = occupiedPositions st,
           groups = (groups g) (cfgId config \<mapsto>
              \<lparr> targetPositions = targetPositions st, chaosPositions = chaosPositions st,
                randomRotations = randomRotations st \<rparr>) \<rparr>)"

definition generate :: "(nat \<Rightarrow> real) \<Rightarrow> Generator" where
  "generate rnd =
     fold (placeConfig rnd) configs
       \<lparr> genCursor = 0, genOccupied = [], groups = Map.empty \<rparr>"

definition ornamentGroups :: "(nat \<Rightarrow> real) \<Rightarrow> (string \<rightharpoonup> OrnamentData)" where
  "ornamentGroups rnd = groups (generate rnd)"

text \<open>
  The accepted formed positions of all groups, in the order of \<open>configs\<close>, each with the
  collision radius of its config.
\<close>

definition entriesOf :: "OrnamentConfig \<Rightarrow> OrnamentData option \<Rightarrow> Occupied list" where
  "entriesOf config d =
     (case d of None \<Rightarrow> []
      | Some data \<Rightarrow>
          map (\<lambda>p. \<lparr> pos = p, radius = cfgScale config * 1.1 \<rparr>) (targetPositions data))"

definition placedEntries :: "(string \<rightharpoonup> OrnamentData) \<Rightarrow> Occupied list" where
  "placedEntries gs = concat (map (\<lambda>config. entriesOf config (gs (cfgId config))) configs)"

subsection \<open>Photos (\<open>items\<close> of \<open>Polaroids\<close>, in src/components/Polaroids.tsx)\<close>

definition COUNT :: nat where
  "COUNT = 25"

definition POLAROID_TREE_HEIGHT :: real where
  "POLAROID_TREE_HEIGHT = 14"

definition POLAROID_TREE_RADIUS :: real where
  "POLAROID_TREE_RADIUS = 5"

record PolaroidData =
  pid :: nat
  treePos :: Vector3
  chaosPos :: Vector3
  gridPos :: Vector3
  lookAtTree :: Vector3
  rotSpeed :: XY

definition gridCols :: nat where
  "gridCols = 5"

definition spacingX :: real where
  "spacingX = 1.75"

definition spacingY :: real where
  "spacingY = 2.1"

definition startX :: real where
  "startX = - ((real gridCols - 1) * spacingX) / 2"

definition rows :: nat where
  "rows = nat \<lceil>real COUNT / real gridCols\<rceil>"

definition totalGridHeight :: real where
  "totalGridHeight = (real rows - 1) * spacingY"

definition startY :: real where
  "startY = 2.9 + totalGridHeight / 2"

definition MIN_DIST :: real where
  "MIN_DIST = 2.4"

text \<open>The chaos candidate \<open>cPos.set(...)\<close> drawn with the three random numbers at \<open>k\<close>.\<close>

definition chaosCandidate :: "(nat \<Rightarrow> real) \<Rightarrow> nat \<Rightarrow> Vector3" where
  "chaosCandidate rnd k =
     (let chaosAngle = rnd k * pi * 2;
          chaosRadius = 9 + rnd (k + 1) * 7;
          chaosHeight = (rnd (k + 2) - 0.5) * 12 + 4
      in (cos chaosAngle * chaosRadius, chaosHeight, sin chaosAngle * chaosRadius))"

fun chaosCollision :: "Vector3 \<Rightarrow> PolaroidData list \<Rightarrow> bool" where
  "chaosCollision cPos [] = False"
| "chaosCollision cPos (item # rest) =
     (if distanceTo (chaosPos item) cPos < MIN_DIST then True else chaosCollision cPos rest)"

function tryChaos ::
  "(nat \<Rightarrow> real) \<Rightarrow> PolaroidData list \<Rightarrow> nat \<Rightarrow> Vector3 \<Rightarrow> nat \<Rightarrow> bool
     \<Rightarrow> nat \<times> Vector3 \<times> nat \<times> bool" where
  "tryChaos rnd arr k cPos attempts valid =
     (if \<not> valid \<and> attempts < 50
      then (let c = chaosCandidate rnd k
            in tryChaos rnd arr (k + 3) c (attempts + 1) (\<not> chaosCollision c arr))
      else (k, cPos, attempts, valid))"
  by pat_completeness auto
termination
  by (relation "measure (\<lambda>(rnd, arr, k, cPos, attempts, valid).
        (50 - attempts) + (if valid then 0 else 1))") auto

declare tryChaos.simps [simp del]

text \<open>The body of \<open>for (let i = 0; i < COUNT; i++)\<close>: the item pushed and the new cursor.\<close>

definition makeItem :: "(nat \<Rightarrow> real) \<Rightarrow> nat \<Rightarrow> PolaroidData list \<Rightarrow> nat \<Rightarrow> PolaroidData \<times> nat" where
  "makeItem rnd i arr k0 =
     (let yNorm = rnd k0;
          y = (yNorm - 0.5) * POLAROID_TREE_HEIGHT;
          r = ((1 - yNorm) * POLAROID_TREE_RADIUS) + 1.5;
          angle = rnd (k0 + 1) * pi * 2;
          tPos = (r * cos angle, y, r * sin angle)
      in case tryChaos rnd arr (k0 + 2) (0, 0, 0) 0 False of
           (k, cPos, attempts, valid) \<Rightarrow>
             (let col = i mod gridCols;
                  row = i div gridCols;
                  gPos = (startX + real col * spacingX, startY - real row * spacingY, 8)
              in (\<lparr> pid = i, treePos = tPos, chaosPos = cPos, gridPos = gPos,
                     lookAtTree = (0, y, 0),
                     rotSpeed = \<lparr> xc = (rnd k - 0.5) * 0.5, yc = (rnd (k + 1) - 0.5) * 0.5 \<rparr> \<rparr>,
                  k + 2)))"

function itemsLoop :: "(nat \<Rightarrow> real) \<Rightarrow> nat \<Rightarrow> PolaroidData list \<Rightarrow> nat \<Rightarrow> PolaroidData list" where
  "itemsLoop rnd i arr k =
     (if i < COUNT
      then (case makeItem rnd i arr k of (item, k') \<Rightarrow> itemsLoop rnd (i + 1) (arr @ [item]) k')
      else arr)"
  by pat_completeness auto
termination
  by (relation "measure (\<lambda>(rnd, i, arr, k). COUNT - i)") auto

declare itemsLoop.simps [simp del]

definition items :: "(nat \<Rightarrow> real) \<Rightarrow> PolaroidData list" where
  "items rnd = itemsLoop rnd 0 [] 0"

section \<open>Sample inputs and auxiliary predicates\<close>

text \<open>
  Hands with all 21 keypoints on the x-axis and the wrist at the origin, so that every
  distance is a difference of coordinates. The lists give the x-coordinates of the
  keypoints 0 to 20.
\<close>

definition handOnAxis :: "real list \<Rightarrow> XY list" where
  "handOnAxis vs = map (\<lambda>v. \<lparr> xc = v, yc = 0 \<rparr>) vs"

text \<open>All five fingers extended, thumb tip and index tip 0.02 apart.\<close>

definition openPinchHand :: "XY list" where
  "openPinchHand = handOnAxis
     [0, 0.1, 0.2, 0.4, 0.5,  0.2, 0.4, 0.45, 0.52,  0.25, 0.4, 0.45, 0.5,
      0.2, 0.4, 0.45, 0.5,  0.2, 0.4, 0.45, 0.5]"

text \<open>Thumb, index and middle extended, ring and pinky folded, tips 0.02 apart.\<close>

definition victoryPinchHand :: "XY list" where
  "victoryPinchHand = handOnAxis
     [0, 0.1, 0.2, 0.4, 0.5,  0.2, 0.4, 0.45, 0.52,  0.25, 0.4, 0.45, 0.5,
      0.2, 0.4, 0.3, 0.3,  0.2, 0.4, 0.3, 0.3]"

text \<open>No finger extended, thumb tip on index tip.\<close>

definition pinchFistHand :: "XY list" where
  "pinchFistHand = handOnAxis
     [0, 0.1, 0.2, 0.4, 0.3,  0.2, 0.4, 0.3, 0.3,  0.25, 0.4, 0.3, 0.3,
      0.2, 0.4, 0.3, 0.3,  0.2, 0.4, 0.3, 0.3]"

text \<open>No finger extended, thumb tip and index tip 0.1 apart.\<close>

definition fistHand :: "XY list" where
  "fistHand = handOnAxis
     [0, 0.1, 0.2, 0.4, 0.3,  0.2, 0.4, 0.4, 0.4,  0.25, 0.4, 0.3, 0.3,
      0.2, 0.4, 0.3, 0.3,  0.2, 0.4, 0.3, 0.3]"

text \<open>Thumb and pinky extended, the other fingers folded, no pinch.\<close>

definition looseHand :: "XY list" where
  "looseHand = handOnAxis
     [0, 0.1, 0.2, 0.4, 0.5,  0.2, 0.4, 0.3, 0.3,  0.25, 0.4, 0.3, 0.3,
      0.2, 0.4, 0.3, 0.3,  0.2, 0.4, 0.45, 0.5]"

text \<open>A stream of hands that the classifier all labels \<open>L\<close>.\<close>

definition streak :: "GestureType \<Rightarrow> XY list list \<Rightarrow> bool" where
  "streak L hands = list_all (\<lambda>lms. 21 \<le> length lms \<and> detectedGesture lms = L) hands"

text \<open>A mounted group at rotation 0, just grabbed at pointer position 0.\<close>

definition grabbed :: TreeGroup where
  "grabbed = \<lparr> groupRef = Some 0, isDragging = True, previousMouseX = 0, velocity = 0 \<rparr>"

text \<open>A frame with the hand state of the initial store (no hand, gesture NONE).\<close>

definition idleFrame :: "HandState \<times> real" where
  "idleFrame = (handState initialStore, 1 / 60)"


text \<open>Any two entries of a list of occupied positions keep the sum of their radii apart.\<close>

definition pairwiseClear :: "Occupied list \<Rightarrow> bool" where
  "pairwiseClear occ =
     (\<forall>i j. i < j \<and> j < length occ \<longrightarrow>
        radius (occ ! i) + radius (occ ! j) \<le> distanceTo (pos (occ ! i)) (pos (occ ! j)))"

text \<open>
  What the loop over one config maintains: the occupied positions are pairwise clear,
  and they are the positions occupied before the config followed by its own accepted
  positions, each with the config's radius.
\<close>

definition layoutInv :: "Occupied list \<Rightarrow> real \<Rightarrow> Placing \<Rightarrow> bool" where
  "layoutInv base R st =
     (pairwiseClear (occupiedPositions st) \<and>
      occupiedPositions st = base @ map (\<lambda>p. \<lparr> pos = p, radius = R \<rparr>) (targetPositions st))"

text \<open>Random sources: all zeros, and all zeros but 1/2 at index 7.\<close>

definition noRandom :: "nat \<Rightarrow> real" where
  "noRandom k = 0"

definition halfAtSeven :: "nat \<Rightarrow> real" where
  "halfAtSeven k = (if k = 7 then 1 / 2 else 0)"

text \<open>The variables of the placement loop before the first ornament of the first config.\<close>

definition emptyPlacing :: Placing where
  "emptyPlacing = \<lparr> targetPositions = [], chaosPositions = [], randomRotations = [],
                     occupiedPositions = [], cursor = 0 \<rparr>"

section \<open>The mode state machine\<close>

text \<open>
  Claim C1, as amended: the manual toggle maps FORMED to CHAOS and every other mode to
  FORMED, so CHAOS goes to FORMED and GRID goes to FORMED as well; it reads nothing but
  the mode, and it leaves the hand state as it is.
\<close>

theorem toggleMode_table:
  "mode (toggleMode (s \<lparr> mode := FORMED \<rparr>)) = CHAOS \<and>
   mode (toggleMode (s \<lparr> mode := CHAOS \<rparr>)) = FORMED \<and>
   mode (toggleMode (s \<lparr> mode := GRID \<rparr>)) = FORMED \<and>
   mode (toggleMode (s \<lparr> handState := h \<rparr>)) = mode (toggleMode s) \<and>
   handState (toggleMode s) = handState s"
  by (simp add: toggleMode_def)

text \<open>
  Claim C1 as stated fails: a confirmed PINCH takes the initial store to GRID, and the
  toggle then yields FORMED, not CHAOS.
\<close>

theorem toggleMode_GRID_counterexample:
  "mode (setHandState \<lparr> detectedP = Some True, gestureP = Some PINCH, positionP = None,
                        landmarksP = None \<rparr> initialStore) = GRID \<and>
   mode (toggleMode (setHandState \<lparr> detectedP = Some True, gestureP = Some PINCH,
                        positionP = None, landmarksP = None \<rparr> initialStore)) = FORMED \<and>
   mode (toggleMode (setHandState \<lparr> detectedP = Some True, gestureP = Some PINCH,
                        positionP = None, landmarksP = None \<rparr> initialStore)) \<noteq> CHAOS"
  by (simp add: toggleMode_def setHandState_def spread_def initialStore_def)

text \<open>
  Claim C4: the initial mode is FORMED; a hand-state update leaves the mode alone unless
  the merged hand state is detected, and then OPEN gives CHAOS, FIST gives FORMED and
  PINCH gives GRID from any mode, while VICTORY and NONE keep the mode.
\<close>

theorem setHandState_transition:
  "mode initialStore = FORMED \<and>
   (let h = handState (setHandState p s); m = mode (setHandState p s)
    in h = spread (handState s) p \<and>
       (\<not> detected h \<longrightarrow> m = mode s) \<and>
       (detected h \<and> gesture h = OPEN \<longrightarrow> m = CHAOS) \<and>
       (detected h \<and> gesture h = FIST \<longrightarrow> m = FORMED) \<and>
       (detected h \<and> gesture h = PINCH \<longrightarrow> m = GRID) \<and>
       (detected h \<and> gesture h = VICTORY \<longrightarrow> m = mode s) \<and>
       (detected h \<and> gesture h = NONE \<longrightarrow> m = mode s))"
  by (simp add: initialStore_def setHandState_def Let_def)

text \<open>
  Witness for C4: a detected OPEN takes the initial store to CHAOS, and the same gesture
  without detection leaves it FORMED.
\<close>

theorem setHandState_transition_witness:
  "detected (handState (setHandState \<lparr> detectedP = Some True, gestureP = Some OPEN,
       positionP = None, landmarksP = None \<rparr> initialStore)) \<and>
   gesture (handState (setHandState \<lparr> detectedP = Some True, gestureP = Some OPEN,
       positionP = None, landmarksP = None \<rparr> initialStore)) = OPEN \<and>
   mode (setHandState \<lparr> detectedP = Some True, gestureP = Some OPEN,
       positionP = None, landmarksP = None \<rparr> initialStore) = CHAOS \<and>
   \<not> detected (handState (setHandState \<lparr> detectedP = None, gestureP = Some OPEN,
       positionP = None, landmarksP = None \<rparr> initialStore)) \<and>
   mode (setHandState \<lparr> detectedP = None, gestureP = Some OPEN,
       positionP = None, landmarksP = None \<rparr> initialStore) = FORMED"
  using setHandState_transition [of "\<lparr> detectedP = Some True, gestureP = Some OPEN,
       positionP = None, landmarksP = None \<rparr>" initialStore]
    setHandState_transition [of "\<lparr> detectedP = None, gestureP = Some OPEN,
       positionP = None, landmarksP = None \<rparr>" initialStore]
  by (simp add: Let_def spread_def initialStore_def)

section \<open>The classifier\<close>

lemmas classify_defs = detectedGesture_def handOnAxis_def fingersUp_def isThumbUp_def
  isIndexUp_def isMiddleUp_def isRingUp_def isPinkyUp_def distIdx_def hypot_def isPinch_def
  pinchDist_def

lemma openPinchHand_facts:
  "length openPinchHand = 21" "fingersUp openPinchHand = 5" "isPinch openPinchHand"
  "detectedGesture openPinchHand = OPEN"
  by (simp_all add: openPinchHand_def classify_defs)

lemma victoryPinchHand_facts:
  "length victoryPinchHand = 21" "isThumbUp victoryPinchHand" "isIndexUp victoryPinchHand"
  "isMiddleUp victoryPinchHand" "\<not> isRingUp victoryPinchHand" "\<not> isPinkyUp victoryPinchHand"
  "isPinch victoryPinchHand" "detectedGesture victoryPinchHand = VICTORY"
  by (simp_all add: victoryPinchHand_def classify_defs)

lemma pinchFistHand_facts:
  "length pinchFistHand = 21" "fingersUp pinchFistHand = 0" "isPinch pinchFistHand"
  "detectedGesture pinchFistHand = PINCH"
  by (simp_all add: pinchFistHand_def classify_defs)

lemma fistHand_facts:
  "length fistHand = 21" "fingersUp fistHand = 0" "\<not> isPinch fistHand"
  "detectedGesture fistHand = FIST"
  by (simp_all add: fistHand_def classify_defs)

lemma looseHand_facts:
  "length looseHand = 21" "fingersUp looseHand = 2" "\<not> isPinch looseHand"
  "detectedGesture looseHand = NONE"
  by (simp_all add: looseHand_def classify_defs)

text \<open>
  Claim C5: the rules are tried in order and the first match wins. Four or more
  extended fingers give OPEN whatever the pinch test says; index and middle extended
  with ring and pinky folded give VICTORY whatever the thumb and the pinch test say;
  a pinch gives PINCH when neither of these holds, also with at most one finger
  extended; at most one extended finger without a pinch gives FIST; the rest is NONE.
\<close>

theorem detectedGesture_priority:
  "(4 \<le> fingersUp lms \<longrightarrow> detectedGesture lms = OPEN) \<and>
   (isIndexUp lms \<and> isMiddleUp lms \<and> \<not> isRingUp lms \<and> \<not> isPinkyUp lms \<longrightarrow>
      detectedGesture lms = VICTORY) \<and>
   (fingersUp lms < 4 \<and>
    \<not> (isIndexUp lms \<and> isMiddleUp lms \<and> \<not> isRingUp lms \<and> \<not> isPinkyUp lms) \<and>
    isPinch lms \<longrightarrow> detectedGesture lms = PINCH) \<and>
   (fingersUp lms \<le> 1 \<and> \<not> isPinch lms \<longrightarrow> detectedGesture lms = FIST) \<and>
   (2 \<le> fingersUp lms \<and> fingersUp lms < 4 \<and>
    \<not> (isIndexUp lms \<and> isMiddleUp lms \<and> \<not> isRingUp lms \<and> \<not> isPinkyUp lms) \<and>
    \<not> isPinch lms \<longrightarrow> detectedGesture lms = NONE)"
  by (auto simp add: detectedGesture_def fingersUp_def split: if_splits)

text \<open>
  Witness for C5: one hand for each rule, the first three with the pinch test true as
  well.
\<close>

theorem detectedGesture_priority_witness:
  "4 \<le> fingersUp openPinchHand \<and> isPinch openPinchHand \<and>
   detectedGesture openPinchHand = OPEN \<and>
   isIndexUp victoryPinchHand \<and> isMiddleUp victoryPinchHand \<and> \<not> isRingUp victoryPinchHand \<and>
   \<not> isPinkyUp victoryPinchHand \<and> isThumbUp victoryPinchHand \<and> isPinch victoryPinchHand \<and>
   detectedGesture victoryPinchHand = VICTORY \<and>
   fingersUp pinchFistHand \<le> 1 \<and> isPinch pinchFistHand \<and>
   detectedGesture pinchFistHand = PINCH \<and>
   fingersUp fistHand \<le> 1 \<and> \<not> isPinch fistHand \<and> detectedGesture fistHand = FIST \<and>
   fingersUp looseHand = 2 \<and> \<not> isPinch looseHand \<and> detectedGesture looseHand = NONE"
  using detectedGesture_priority [of openPinchHand] detectedGesture_priority [of victoryPinchHand]
    detectedGesture_priority [of pinchFistHand] detectedGesture_priority [of fistHand]
    detectedGesture_priority [of looseHand]
  by (simp add: openPinchHand_facts victoryPinchHand_facts pinchFistHand_facts fistHand_facts
      looseHand_facts)

section \<open>One detector update\<close>

text \<open>When the throttle admits the frame, \<open>predictWebcam\<close> is one detector update.\<close>

lemma predictWebcam_admitted:
  assumes "33 < now - lastProcessRef r" and "0 < currentTime"
  shows "predictWebcam True now currentTime (Some result) (r, s) =
     onResult result (r \<lparr> lastProcessRef := now \<rparr>, s)"
  using assms by (simp add: predictWebcam_def)

lemma predictWebcam_skipped:
  assumes "\<not> 33 < now - lastProcessRef r"
  shows "predictWebcam ready now currentTime detection (r, s) = (r, s)"
  using assms by (simp add: predictWebcam_def)

lemma onResult_hand:
  assumes "21 \<le> length lms"
  shows "onResult [lms] (r, s) =
     (debounce (detectedGesture lms) r,
      setHandState
        \<lparr> detectedP = Some True,
          gestureP = (if gestureCountRef (debounce (detectedGesture lms) r) > 5
                      then Some (detectedGesture lms) else None),
          positionP = Some \<lparr> xc = (1 - xc (lms ! 9)) * 2 - 1, yc = - (yc (lms ! 9) * 2 - 1) \<rparr>,
          landmarksP = Some (map (\<lambda>l. \<lparr> xc = xc l, yc = yc l \<rparr>) lms) \<rparr> s)"
  using assms
  by (simp add: onResult_def trackHand_def Let_def GESTURE_CONFIRM_THRESHOLD_def)

lemma hand_step:
  assumes "21 \<le> length lms" and "onResult [lms] (r, s) = (r', s')"
  shows "pendingGestureRef r' = detectedGesture lms"
    and "gestureCountRef r' =
           (if detectedGesture lms = pendingGestureRef r then gestureCountRef r + 1 else 0)"
    and "gesture (handState s') =
           (if 5 < gestureCountRef r' then detectedGesture lms else gesture (handState s))"
    and "detected (handState s')"
    and "position (handState s') =
           \<lparr> xc = (1 - xc (lms ! 9)) * 2 - 1, yc = - (yc (lms ! 9) * 2 - 1) \<rparr>"
    and "mode s' = switchGesture (gesture (handState s')) (mode s)"
  using assms(2) unfolding onResult_hand [OF assms(1)]
  by (auto simp add: debounce_def setHandState_def spread_def Let_def)

lemma joints: "baseJoint indexBones = 5" "baseJoint middleBones = 9"
  by (simp_all add: baseJoint_def indexBones_def middleBones_def CONNECTIONS_def)

lemma openPinchHand_keypoints:
  "openPinchHand ! 9 = \<lparr> xc = 0.25, yc = 0 \<rparr>" "openPinchHand ! 5 = \<lparr> xc = 0.2, yc = 0 \<rparr>"
  by (simp_all add: openPinchHand_def handOnAxis_def)

text \<open>
  Claim C2, as amended: for every hand of at least 21 keypoints the update goes through
  and the anchor it stores is keypoint 9, which the skeleton table lists as the base
  joint of the middle finger (the index finger's is keypoint 5), remapped by
  x' = (1 - x) * 2 - 1 and y' = - (y * 2 - 1).
\<close>

theorem anchor_is_keypoint_9:
  "baseJoint indexBones = 5 \<and> baseJoint middleBones = 9 \<and>
   (21 \<le> length lms \<longrightarrow>
      (\<exists>r' s'. trackHand lms (r, s) = Inr (r', s') \<and> detected (handState s') \<and>
         position (handState s') =
           \<lparr> xc = (1 - xc (lms ! baseJoint middleBones)) * 2 - 1,
             yc = - (yc (lms ! baseJoint middleBones) * 2 - 1) \<rparr>))"
  by (simp add: joints trackHand_def Let_def setHandState_def spread_def)

text \<open>
  Witness for C2: the open hand has keypoint 9 at (0.25, 0), and its anchor is (0.5, 1).
\<close>

theorem anchor_is_keypoint_9_witness:
  "21 \<le> length openPinchHand \<and>
   (\<exists>r' s'. trackHand openPinchHand (initialRefs, initialStore) = Inr (r', s') \<and>
      detected (handState s') \<and> position (handState s') = \<lparr> xc = 0.5, yc = 1 \<rparr>)"
  using anchor_is_keypoint_9 [of openPinchHand initialRefs initialStore]
  by (simp add: openPinchHand_facts openPinchHand_keypoints joints)

text \<open>
  Claim C2 as stated fails: on the open hand, whose index base (keypoint 5) is at
  x = 0.2, the stored anchor is not the remapped index base.
\<close>

theorem anchor_index_base_counterexample:
  "position (handState (snd (onResult [openPinchHand] (initialRefs, initialStore)))) \<noteq>
     \<lparr> xc = (1 - xc (openPinchHand ! baseJoint indexBones)) * 2 - 1,
       yc = - (yc (openPinchHand ! baseJoint indexBones) * 2 - 1) \<rparr>"
proof -
  obtain r' s' where st: "onResult [openPinchHand] (initialRefs, initialStore) = (r', s')"
    by force
  have "position (handState s') =
      \<lparr> xc = (1 - xc (openPinchHand ! 9)) * 2 - 1, yc = - (yc (openPinchHand ! 9) * 2 - 1) \<rparr>"
    using hand_step(5) [OF _ st] by (simp add: openPinchHand_facts)
  then show ?thesis by (simp add: st joints openPinchHand_keypoints)
qed

section \<open>The debounce filter\<close>

lemma streak_replicate:
  "21 \<le> length h \<Longrightarrow> detectedGesture h = L \<Longrightarrow> streak L (replicate n h)"
  by (induction n) (simp_all add: streak_def)

text \<open>A streak of the label that is already pending: every sample counts.\<close>

lemma streak_pending:
  "streak L hands \<Longrightarrow> pendingGestureRef r = L \<Longrightarrow> feedHands hands (r, s) = (r', s') \<Longrightarrow>
     pendingGestureRef r' = L \<and> gestureCountRef r' = gestureCountRef r + length hands \<and>
     gesture (handState s') =
       (if hands \<noteq> [] \<and> 5 < gestureCountRef r + length hands then L
        else gesture (handState s))"
proof (induction hands arbitrary: r s)
  case Nil
  then show ?case by (simp add: feedHands_def)
next
  case (Cons lms hands)
  obtain r1 s1 where st: "onResult [lms] (r, s) = (r1, s1)" by force
  from Cons.prems(1) have v: "21 \<le> length lms" and g: "detectedGesture lms = L"
    and sk: "streak L hands"
    by (simp_all add: streak_def)
  have p1: "pendingGestureRef r1 = L" using hand_step(1) [OF v st] g by simp
  have c1: "gestureCountRef r1 = gestureCountRef r + 1"
    using hand_step(2) [OF v st] g Cons.prems(2) by simp
  have g1: "gesture (handState s1) =
      (if 5 < gestureCountRef r + 1 then L else gesture (handState s))"
    using hand_step(3) [OF v st] g c1 by simp
  have rest: "feedHands hands (r1, s1) = (r', s')"
    using Cons.prems(3) st by (simp add: feedHands_def)
  from Cons.IH [OF sk p1 rest] c1 g1 show ?case by auto
qed

text \<open>A streak of a new label: its first sample only resets the counter.\<close>

lemma streak_any:
  assumes "streak L (lms # hands)" and "pendingGestureRef r \<noteq> L"
    and "feedHands (lms # hands) (r, s) = (r', s')"
  shows "pendingGestureRef r' = L \<and> gestureCountRef r' = length hands \<and>
     gesture (handState s') = (if 5 < length hands then L else gesture (handState s))"
proof -
  obtain r1 s1 where st: "onResult [lms] (r, s) = (r1, s1)" by force
  from assms(1) have v: "21 \<le> length lms" and g: "detectedGesture lms = L"
    and sk: "streak L hands"
    by (simp_all add: streak_def)
  have p1: "pendingGestureRef r1 = L" using hand_step(1) [OF v st] g by simp
  have c1: "gestureCountRef r1 = 0"
    using hand_step(2) [OF v st] g assms(2) by auto
  have g1: "gesture (handState s1) = gesture (handState s)"
    using hand_step(3) [OF v st] c1 by simp
  have rest: "feedHands hands (r1, s1) = (r', s')"
    using assms(3) st by (simp add: feedHands_def)
  from streak_pending [OF sk p1 rest] c1 g1 show ?thesis by auto
qed

text \<open>
  Claim C3, as amended: the counter starts at 0 on the first sample of a new label and
  the gesture is forwarded once it exceeds 5. A streak of a label that is already the
  pending candidate is confirmed by its 6th sample at the latest and not while the
  counter stays at 5 or below; a streak of a label that differs from the pending
  candidate leaves the forwarded gesture as it was through its first 6 samples and is
  confirmed on the 7th; from any state 7 identical samples confirm. A sample whose
  label differs from the pending candidate sets the counter to 0, makes its label the
  candidate and forwards no gesture, and the 6 samples of another label that follow it
  forward none either. A sample that leaves the counter at 5 or below keeps the
  previously forwarded gesture.
\<close>

theorem debounce_confirmation:
  "(streak L hands \<and> pendingGestureRef r = L \<and> gestureCountRef r + length hands \<le> 5 \<longrightarrow>
      gesture (handState (snd (feedHands hands (r, s)))) = gesture (handState s)) \<and>
   (streak L hands \<and> pendingGestureRef r = L \<and> length hands = 6 \<longrightarrow>
      gesture (handState (snd (feedHands hands (r, s)))) = L) \<and>
   (streak L hands \<and> pendingGestureRef r \<noteq> L \<and> length hands \<le> 6 \<longrightarrow>
      gesture (handState (snd (feedHands hands (r, s)))) = gesture (handState s)) \<and>
   (streak L hands \<and> length hands = 7 \<longrightarrow>
      gesture (handState (snd (feedHands hands (r, s)))) = L) \<and>
   (21 \<le> length lms \<and> detectedGesture lms \<noteq> pendingGestureRef r \<longrightarrow>
      gestureCountRef (fst (onResult [lms] (r, s))) = 0 \<and>
      pendingGestureRef (fst (onResult [lms] (r, s))) = detectedGesture lms \<and>
      gesture (handState (snd (onResult [lms] (r, s)))) = gesture (handState s)) \<and>
   (21 \<le> length lms \<and> detectedGesture lms \<noteq> L \<and> streak L hands \<and> length hands \<le> 6 \<longrightarrow>
      gesture (handState (snd (feedHands (lms # hands) (r, s)))) =
        gesture (handState (snd (onResult [lms] (r, s))))) \<and>
   (21 \<le> length lms \<and> gestureCountRef (fst (onResult [lms] (r, s))) \<le> 5 \<longrightarrow>
      gesture (handState (snd (onResult [lms] (r, s)))) = gesture (handState s))"
proof -
  obtain r' s' where fh: "feedHands hands (r, s) = (r', s')" by force
  obtain r1 s1 where st: "onResult [lms] (r, s) = (r1, s1)" by force
  obtain r2 s2 where fh2: "feedHands hands (r1, s1) = (r2, s2)" by force
  have c1: "gesture (handState s') = gesture (handState s)"
    if "streak L hands" "pendingGestureRef r = L" "gestureCountRef r + length hands \<le> 5"
    using streak_pending [OF that(1,2) fh] that(3) by simp
  have c2: "gesture (handState s') = L"
    if "streak L hands" "pendingGestureRef r = L" "length hands = 6"
    using streak_pending [OF that(1,2) fh] that(3) by auto
  have c3: "gesture (handState s') = gesture (handState s)"
    if "streak L hands" "pendingGestureRef r \<noteq> L" "length hands \<le> 6"
  proof (cases hands)
    case Nil
    with fh show ?thesis by (simp add: feedHands_def)
  next
    case (Cons h hs)
    with that fh streak_any [of L h hs r s r' s'] show ?thesis by simp
  qed
  have c4: "gesture (handState s') = L" if "streak L hands" "length hands = 7"
  proof (cases "pendingGestureRef r = L")
    case True
    from streak_pending [OF that(1) True fh] that(2) show ?thesis by auto
  next
    case False
    from that(2) obtain h hs where hs: "hands = h # hs" "length hs = 6"
      by (cases hands) simp_all
    with that fh streak_any [of L h hs r s r' s'] False show ?thesis by simp
  qed
  have c5: "gestureCountRef r1 = 0 \<and> pendingGestureRef r1 = detectedGesture lms \<and>
      gesture (handState s1) = gesture (handState s)"
    if "21 \<le> length lms" "detectedGesture lms \<noteq> pendingGestureRef r"
    using hand_step(1,2,3) [OF that(1) st] that(2) by simp
  have c6: "gesture (handState s2) = gesture (handState s1)"
    if "21 \<le> length lms" "detectedGesture lms \<noteq> L" "streak L hands" "length hands \<le> 6"
  proof (cases hands)
    case Nil
    with fh2 show ?thesis by (simp add: feedHands_def)
  next
    case (Cons h hs)
    have "pendingGestureRef r1 \<noteq> L" using hand_step(1) [OF that(1) st] that(2) by simp
    with Cons that fh2 streak_any [of L h hs r1 s1 r2 s2] show ?thesis by simp
  qed
  have c7: "gesture (handState s1) = gesture (handState s)"
    if "21 \<le> length lms" "gestureCountRef r1 \<le> 5"
    using hand_step(3) [OF that(1) st] that(2) by simp
  have f2: "feedHands (lms # hands) (r, s) = (r2, s2)"
    using st fh2 by (simp add: feedHands_def)
  from c1 c2 c3 c4 c5 c6 c7 show ?thesis
    unfolding fh st f2 fst_conv snd_conv by blast
qed

text \<open>
  Witness for C3: from the initial refs and store 7 open hands confirm OPEN and 6 do
  not; with OPEN pending, 6 confirm and 5 do not; a fist after five counted open
  hands resets the counter, and 6 further open hands forward nothing.
\<close>

theorem debounce_confirmation_witness:
  "streak OPEN (replicate 7 openPinchHand) \<and>
   gesture (handState (snd (feedHands (replicate 7 openPinchHand) (initialRefs, initialStore))))
     = OPEN \<and>
   streak OPEN (replicate 6 openPinchHand) \<and> pendingGestureRef initialRefs \<noteq> OPEN \<and>
   gesture (handState (snd (feedHands (replicate 6 openPinchHand) (initialRefs, initialStore))))
     = NONE \<and>
   pendingGestureRef (initialRefs \<lparr> pendingGestureRef := OPEN \<rparr>) = OPEN \<and>
   gesture (handState (snd (feedHands (replicate 6 openPinchHand)
     (initialRefs \<lparr> pendingGestureRef := OPEN \<rparr>, initialStore)))) = OPEN \<and>
   gesture (handState (snd (feedHands (replicate 5 openPinchHand)
     (initialRefs \<lparr> pendingGestureRef := OPEN \<rparr>, initialStore)))) = NONE \<and>
   21 \<le> length fistHand \<and> detectedGesture fistHand \<noteq> OPEN \<and>
   gestureCountRef (fst (onResult [fistHand]
     (initialRefs \<lparr> pendingGestureRef := OPEN, gestureCountRef := 5 \<rparr>, initialStore))) = 0 \<and>
   gesture (handState (snd (feedHands (fistHand # replicate 6 openPinchHand)
     (initialRefs \<lparr> pendingGestureRef := OPEN, gestureCountRef := 5 \<rparr>, initialStore)))) = NONE"
proof -
  have s7: "streak OPEN (replicate 7 openPinchHand)"
    and s6: "streak OPEN (replicate 6 openPinchHand)"
    and s5: "streak OPEN (replicate 5 openPinchHand)"
    by (rule streak_replicate, simp_all add: openPinchHand_facts)+
  note a = debounce_confirmation [of OPEN "replicate 7 openPinchHand" initialRefs initialStore fistHand]
  note b = debounce_confirmation [of OPEN "replicate 6 openPinchHand" initialRefs initialStore fistHand]
  note c = debounce_confirmation [of OPEN "replicate 6 openPinchHand"
      "initialRefs \<lparr> pendingGestureRef := OPEN \<rparr>" initialStore fistHand]
  note d = debounce_confirmation [of OPEN "replicate 5 openPinchHand"
      "initialRefs \<lparr> pendingGestureRef := OPEN \<rparr>" initialStore fistHand]
  note e = debounce_confirmation [of OPEN "replicate 6 openPinchHand"
      "initialRefs \<lparr> pendingGestureRef := OPEN, gestureCountRef := 5 \<rparr>" initialStore fistHand]
  have e1: "gestureCountRef (fst (onResult [fistHand]
     (initialRefs \<lparr> pendingGestureRef := OPEN, gestureCountRef := 5 \<rparr>, initialStore))) = 0"
    and e2: "gesture (handState (snd (onResult [fistHand]
     (initialRefs \<lparr> pendingGestureRef := OPEN, gestureCountRef := 5 \<rparr>, initialStore)))) = NONE"
    using e by (simp_all add: fistHand_facts initialStore_def)
  have e3: "gesture (handState (snd (feedHands (fistHand # replicate 6 openPinchHand)
     (initialRefs \<lparr> pendingGestureRef := OPEN, gestureCountRef := 5 \<rparr>, initialStore)))) = NONE"
    using e s6 e2 by (simp add: fistHand_facts)
  have a1: "gesture (handState (snd (feedHands (replicate 7 openPinchHand) (initialRefs, initialStore)))) = OPEN"
    using a s7 by simp
  have b1: "gesture (handState (snd (feedHands (replicate 6 openPinchHand) (initialRefs, initialStore)))) = NONE"
    using b s6 by (simp add: initialRefs_def initialStore_def)
  have c1: "gesture (handState (snd (feedHands (replicate 6 openPinchHand)
     (initialRefs \<lparr> pendingGestureRef := OPEN \<rparr>, initialStore)))) = OPEN"
    using c s6 by simp
  have d1: "gesture (handState (snd (feedHands (replicate 5 openPinchHand)
     (initialRefs \<lparr> pendingGestureRef := OPEN \<rparr>, initialStore)))) = NONE"
    using d s5 by (simp add: initialRefs_def initialStore_def)
  from s7 s6 a1 b1 c1 d1 e1 e3 show ?thesis
    by (simp add: initialRefs_def fistHand_facts)
qed

text \<open>
  Claim C3 as stated fails: from the initial refs (candidate NONE, counter 0) six
  consecutive open hands leave the forwarded gesture at NONE.
\<close>

theorem six_samples_counterexample:
  "streak OPEN (replicate 6 openPinchHand) \<and>
   gesture (handState (snd (feedHands (replicate 6 openPinchHand) (initialRefs, initialStore))))
     \<noteq> OPEN"
proof -
  have sk: "streak OPEN (replicate 6 openPinchHand)"
    by (rule streak_replicate) (simp_all add: openPinchHand_facts)
  then have sk': "streak OPEN (openPinchHand # replicate 5 openPinchHand)"
    by (simp add: numeral_Bit0 numeral_Bit1)
  obtain r' s' where st:
    "feedHands (openPinchHand # replicate 5 openPinchHand) (initialRefs, initialStore) = (r', s')"
    by force
  have "pendingGestureRef initialRefs \<noteq> OPEN" by (simp add: initialRefs_def)
  from streak_any [OF sk' this st]
  have "gesture (handState s') = NONE" by (simp add: initialStore_def)
  moreover have "replicate 6 openPinchHand = openPinchHand # replicate 5 openPinchHand"
    by (simp add: numeral_Bit0 numeral_Bit1)
  ultimately show ?thesis using sk st by simp
qed

section \<open>Detector updates and the mode\<close>

text \<open>
  Claim C10: every update that shows a hand stores detected = true and derives the mode
  again from the gesture it leaves in the store, also when the sample is unconfirmed
  and that gesture is the old one. So after the update OPEN, FIST and PINCH come with
  CHAOS, FORMED and GRID, and an update that follows a manual toggle ends in the same
  mode and hand state as without the toggle.
\<close>

theorem detector_update_reapplies_mode:
  "21 \<le> length lms \<longrightarrow>
     (let s' = snd (onResult [lms] (r, s));
          t' = snd (onResult [lms] (r, toggleMode s))
      in detected (handState s') \<and>
         (gestureCountRef (fst (onResult [lms] (r, s))) \<le> 5 \<longrightarrow>
            gesture (handState s') = gesture (handState s)) \<and>
         mode s' = switchGesture (gesture (handState s')) (mode s) \<and>
         handState t' = handState s' \<and>
         (gesture (handState s') = OPEN \<longrightarrow> mode s' = CHAOS \<and> mode t' = CHAOS) \<and>
         (gesture (handState s') = FIST \<longrightarrow> mode s' = FORMED \<and> mode t' = FORMED) \<and>
         (gesture (handState s') = PINCH \<longrightarrow> mode s' = GRID \<and> mode t' = GRID))"
proof
  assume v: "21 \<le> length lms"
  obtain r1 s1 where st: "onResult [lms] (r, s) = (r1, s1)" by force
  obtain r2 t1 where tt: "onResult [lms] (r, toggleMode s) = (r2, t1)" by force
  have hs: "handState (toggleMode s) = handState s" by (simp add: toggleMode_def)
  have rr: "r2 = r1" using st tt unfolding onResult_hand [OF v] by simp
  have g: "gesture (handState t1) = gesture (handState s1)"
    using hand_step(3) [OF v st] hand_step(3) [OF v tt] rr hs by simp
  have h: "handState t1 = handState s1"
    using st tt unfolding onResult_hand [OF v] by (auto simp add: setHandState_def hs Let_def)
  have m1: "mode s1 = switchGesture (gesture (handState s1)) (mode s)"
    by (rule hand_step(6) [OF v st])
  have m2: "mode t1 = switchGesture (gesture (handState s1)) (mode (toggleMode s))"
    using hand_step(6) [OF v tt] g by simp
  have keep: "gestureCountRef r1 \<le> 5 \<longrightarrow> gesture (handState s1) = gesture (handState s)"
    using hand_step(3) [OF v st] by simp
  show "let s' = snd (onResult [lms] (r, s));
          t' = snd (onResult [lms] (r, toggleMode s))
      in detected (handState s') \<and>
         (gestureCountRef (fst (onResult [lms] (r, s))) \<le> 5 \<longrightarrow>
            gesture (handState s') = gesture (handState s)) \<and>
         mode s' = switchGesture (gesture (handState s')) (mode s) \<and>
         handState t' = handState s' \<and>
         (gesture (handState s') = OPEN \<longrightarrow> mode s' = CHAOS \<and> mode t' = CHAOS) \<and>
         (gesture (handState s') = FIST \<longrightarrow> mode s' = FORMED \<and> mode t' = FORMED) \<and>
         (gesture (handState s') = PINCH \<longrightarrow> mode s' = GRID \<and> mode t' = GRID)"
    using hand_step(4) [OF v st] keep m1 m2 h
    unfolding st tt Let_def fst_conv snd_conv by auto
qed

text \<open>
  Witness for C10: with OPEN pending and counted five times, one more open hand
  confirms OPEN and gives CHAOS, whether or not a toggle came first; the following
  unconfirmed fist keeps OPEN and gives CHAOS again after a toggle.
\<close>

theorem detector_update_reapplies_mode_witness:
  "21 \<le> length openPinchHand \<and>
   gesture (handState (snd (onResult [openPinchHand]
     (initialRefs \<lparr> pendingGestureRef := OPEN, gestureCountRef := 5 \<rparr>, initialStore)))) = OPEN \<and>
   mode (snd (onResult [openPinchHand]
     (initialRefs \<lparr> pendingGestureRef := OPEN, gestureCountRef := 5 \<rparr>, initialStore))) = CHAOS \<and>
   mode (snd (onResult [openPinchHand]
     (initialRefs \<lparr> pendingGestureRef := OPEN, gestureCountRef := 5 \<rparr>,
      toggleMode initialStore))) = CHAOS \<and>
   21 \<le> length fistHand \<and>
   gesture (handState (snd (onResult [fistHand]
     (initialRefs \<lparr> pendingGestureRef := OPEN, gestureCountRef := 6 \<rparr>,
      initialStore \<lparr> mode := CHAOS, handState := handState initialStore \<lparr> gesture := OPEN \<rparr> \<rparr>)))) = OPEN \<and>
   mode (snd (onResult [fistHand]
     (initialRefs \<lparr> pendingGestureRef := OPEN, gestureCountRef := 6 \<rparr>,
      toggleMode (initialStore \<lparr> mode := CHAOS,
        handState := handState initialStore \<lparr> gesture := OPEN \<rparr> \<rparr>)))) = CHAOS"
proof -
  have c: "gestureCountRef (fst (onResult [openPinchHand]
      (initialRefs \<lparr> pendingGestureRef := OPEN, gestureCountRef := 5 \<rparr>, initialStore))) = 6"
    by (simp add: onResult_hand openPinchHand_facts debounce_def)
  have g: "gesture (handState (snd (onResult [openPinchHand]
      (initialRefs \<lparr> pendingGestureRef := OPEN, gestureCountRef := 5 \<rparr>, initialStore)))) = OPEN"
    by (simp add: onResult_hand openPinchHand_facts debounce_def setHandState_def spread_def)
  have d: "gestureCountRef (fst (onResult [fistHand]
      (initialRefs \<lparr> pendingGestureRef := OPEN, gestureCountRef := 6 \<rparr>,
       initialStore \<lparr> mode := CHAOS, handState := handState initialStore \<lparr> gesture := OPEN \<rparr> \<rparr>))) = 0"
    by (simp add: onResult_hand fistHand_facts debounce_def)
  show ?thesis
    using detector_update_reapplies_mode [of openPinchHand
        "initialRefs \<lparr> pendingGestureRef := OPEN, gestureCountRef := 5 \<rparr>" initialStore]
      detector_update_reapplies_mode [of fistHand
        "initialRefs \<lparr> pendingGestureRef := OPEN, gestureCountRef := 6 \<rparr>"
        "initialStore \<lparr> mode := CHAOS, handState := handState initialStore \<lparr> gesture := OPEN \<rparr> \<rparr>"]
      g d
    by (simp add: Let_def openPinchHand_facts fistHand_facts)
qed

section \<open>The photo grid\<close>

lemma grid_consts:
  "rows = 5" "startX = - 3.5" "startY = 7.1" "totalGridHeight = 8.4"
  by (simp_all add: rows_def COUNT_def gridCols_def startX_def startY_def totalGridHeight_def
      spacingX_def spacingY_def)

lemma makeItem_gridPos:
  "gridPos (fst (makeItem rnd i arr k)) =
     (startX + real (i mod gridCols) * spacingX, startY - real (i div gridCols) * spacingY, 8)"
  by (simp add: makeItem_def Let_def split: prod.split)

lemma itemsLoop_grid:
  assumes "length arr = i" and "i \<le> COUNT"
    and "\<forall>j<i. gridPos (arr ! j) =
           (startX + real (j mod gridCols) * spacingX, startY - real (j div gridCols) * spacingY, 8)"
  shows "length (itemsLoop rnd i arr k) = COUNT \<and>
     (\<forall>j<COUNT. gridPos (itemsLoop rnd i arr k ! j) =
           (startX + real (j mod gridCols) * spacingX, startY - real (j div gridCols) * spacingY, 8))"
  using assms
proof (induction rnd i arr k rule: itemsLoop.induct)
  case (1 rnd i arr k)
  show ?case
  proof (cases "i < COUNT")
    case True
    obtain item k' where mk: "makeItem rnd i arr k = (item, k')" by force
    have gp: "gridPos item =
        (startX + real (i mod gridCols) * spacingX, startY - real (i div gridCols) * spacingY, 8)"
      using makeItem_gridPos [of rnd i arr k] mk by simp
    have len: "length (arr @ [item]) = i + 1" using "1.prems"(1) by simp
    have inv: "\<forall>j<i + 1. gridPos ((arr @ [item]) ! j) =
        (startX + real (j mod gridCols) * spacingX, startY - real (j div gridCols) * spacingY, 8)"
      using "1.prems"(1,3) gp by (auto simp add: nth_append less_Suc_eq)
    have "i + 1 \<le> COUNT" using True by simp
    from "1.IH" [OF True mk [symmetric] len this inv]
    show ?thesis using True mk by (subst (1 2) itemsLoop.simps) simp
  next
    case False
    with "1.prems" show ?thesis by (subst (1 2) itemsLoop.simps) simp
  qed
qed

lemma items_grid:
  "length (items rnd) = 25"
  "i < 25 \<Longrightarrow> gridPos (items rnd ! i) = (real (i mod 5) * 1.75 - 3.5, 7.1 - real (i div 5) * 2.1, 8)"
  using itemsLoop_grid [of "[]" 0 rnd 0]
  by (simp_all add: items_def COUNT_def grid_consts gridCols_def spacingX_def spacingY_def)

text \<open>
  Claim C7: with COUNT = 25 and 5 columns there are 5 rows and 25 items; item i has
  column i mod 5 and row i div 5 and sits at x = 1.75 * column - 3.5,
  y = 7.1 - 2.1 * row, z = 8, whatever the random source. Columns that mirror each other
  have opposite x, neighbours in a row are 1.75 apart, rows that mirror each other
  average to the baseline y = 2.9, and consecutive rows are 2.1 apart.
\<close>

theorem grid_layout:
  "rows = 5 \<and> length (items rnd) = 25 \<and>
   (\<forall>i<25. gridPos (items rnd ! i) = (real (i mod 5) * 1.75 - 3.5, 7.1 - real (i div 5) * 2.1, 8) \<and>
            i mod 5 < gridCols \<and> i div 5 < rows) \<and>
   (\<forall>i<25. \<forall>j<25. i mod 5 + j mod 5 = 4 \<longrightarrow>
        fst (gridPos (items rnd ! i)) + fst (gridPos (items rnd ! j)) = 0) \<and>
   (\<forall>i<25. i mod 5 < 4 \<longrightarrow>
        fst (gridPos (items rnd ! (i + 1))) - fst (gridPos (items rnd ! i)) = 1.75) \<and>
   (\<forall>i<25. \<forall>j<25. i div 5 + j div 5 = 4 \<longrightarrow>
        (fst (snd (gridPos (items rnd ! i))) + fst (snd (gridPos (items rnd ! j)))) / 2 = 2.9) \<and>
   (\<forall>i<20. fst (snd (gridPos (items rnd ! i))) - fst (snd (gridPos (items rnd ! (i + 5)))) = 2.1)"
proof -
  have x: "fst (gridPos (items rnd ! i)) = real (i mod 5) * 1.75 - 3.5" if "i < 25" for i
    using items_grid(2) [OF that] by simp
  have y: "fst (snd (gridPos (items rnd ! i))) = 7.1 - real (i div 5) * 2.1" if "i < 25" for i
    using items_grid(2) [OF that] by simp
  have a: "\<forall>i<25. gridPos (items rnd ! i) = (real (i mod 5) * 1.75 - 3.5, 7.1 - real (i div 5) * 2.1, 8) \<and>
            i mod 5 < gridCols \<and> i div 5 < rows"
  proof (intro allI impI conjI)
    fix i :: nat assume i: "i < 25"
    show "gridPos (items rnd ! i) = (real (i mod 5) * 1.75 - 3.5, 7.1 - real (i div 5) * 2.1, 8)"
      using items_grid(2) [OF i] .
    show "i mod 5 < gridCols" by (simp add: gridCols_def)
    show "i div 5 < rows" using i by (simp add: grid_consts less_mult_imp_div_less)
  qed
  have b: "\<forall>i<25. \<forall>j<25. i mod 5 + j mod 5 = 4 \<longrightarrow>
        fst (gridPos (items rnd ! i)) + fst (gridPos (items rnd ! j)) = 0"
  proof (intro allI impI)
    fix i j :: nat assume i: "i < 25" and j: "j < 25" and s: "i mod 5 + j mod 5 = 4"
    from s have "real (i mod 5) + real (j mod 5) = 4" by (metis of_nat_add of_nat_numeral)
    then show "fst (gridPos (items rnd ! i)) + fst (gridPos (items rnd ! j)) = 0"
      using x [OF i] x [OF j] by simp
  qed
  have c: "\<forall>i<25. i mod 5 < 4 \<longrightarrow>
        fst (gridPos (items rnd ! (i + 1))) - fst (gridPos (items rnd ! i)) = 1.75"
  proof (intro allI impI)
    fix i :: nat assume i: "i < 25" and m: "i mod 5 < 4"
    have m1: "(i + 1) mod 5 = i mod 5 + 1" using m by presburger
    have i1: "i + 1 < 25" using i m by presburger
    show "fst (gridPos (items rnd ! (i + 1))) - fst (gridPos (items rnd ! i)) = 1.75"
      using x [OF i] x [OF i1] m1 by (simp add: field_simps)
  qed
  have d: "\<forall>i<25. \<forall>j<25. i div 5 + j div 5 = 4 \<longrightarrow>
        (fst (snd (gridPos (items rnd ! i))) + fst (snd (gridPos (items rnd ! j)))) / 2 = 2.9"
  proof (intro allI impI)
    fix i j :: nat assume i: "i < 25" and j: "j < 25" and s: "i div 5 + j div 5 = 4"
    from s have "real (i div 5) + real (j div 5) = 4" by (metis of_nat_add of_nat_numeral)
    then show "(fst (snd (gridPos (items rnd ! i))) + fst (snd (gridPos (items rnd ! j)))) / 2 = 2.9"
      using y [OF i] y [OF j] by simp
  qed
  have e: "\<forall>i<20. fst (snd (gridPos (items rnd ! i))) - fst (snd (gridPos (items rnd ! (i + 5)))) = 2.1"
  proof (intro allI impI)
    fix i :: nat assume i: "i < 20"
    then have i0: "i < 25" and i5: "i + 5 < 25" by simp_all
    have "(i + 5) div 5 = i div 5 + 1" by simp
    then show "fst (snd (gridPos (items rnd ! i))) - fst (snd (gridPos (items rnd ! (i + 5)))) = 2.1"
      using y [OF i0] y [OF i5] by (simp add: field_simps)
  qed
  from a b c d e show ?thesis by (simp only: grid_consts items_grid(1))
qed

text \<open>
  Witness for C7: item 7 is in column 2 of row 1, at (0, 5, 8); item 17 mirrors its row
  at (0, 0.8, 8).
\<close>

theorem grid_layout_witness:
  "(7::nat) < 25 \<and> (17::nat) < 25 \<and> (7::nat) mod 5 + 17 mod 5 = 4 \<and> (7::nat) div 5 + 17 div 5 = 4 \<and>
   gridPos (items (\<lambda>k. 0) ! 7) = (0, 5, 8) \<and>
   gridPos (items (\<lambda>k. 0) ! 17) = (0, 0.8, 8) \<and>
   fst (gridPos (items (\<lambda>k. 0) ! 8)) - fst (gridPos (items (\<lambda>k. 0) ! 7)) = 1.75 \<and>
   fst (snd (gridPos (items (\<lambda>k. 0) ! 7))) - fst (snd (gridPos (items (\<lambda>k. 0) ! 12))) = 2.1"
  using grid_layout [of "\<lambda>k. 0"] by (simp add: grid_consts gridCols_def)

section \<open>The mix accumulator\<close>

lemma exp7: "(1000::real) \<le> exp 7"
proof -
  have "(1 + 1/4 + (1/4)\<^sup>2 / 2 :: real) \<le> exp (1/4)"
    by (rule exp_lower_Taylor_quadratic) simp
  then have "(41/32::real) \<le> exp (1/4)" by (simp add: power2_eq_square)
  then have "(41/32::real) ^ 28 \<le> exp (1/4) ^ 28" by (intro power_mono) simp_all
  also have "exp (1/4::real) ^ 28 = exp 7" by (simp add: exp_of_nat_mult [symmetric])
  finally show ?thesis by (simp add: power_divide field_simps)
qed

lemma lerp_alt: "lerp a b t = a + (b - a) * t"
  by (simp add: lerp_def algebra_simps)

lemma ornamentsFrame_rule:
  "ornamentsFrame True m w dt x =
     x + ((if m = CHAOS then 1 else 0) - x) * dt * (2 * (1 - w * 0.5))"
  by (simp add: ornamentsFrame_def lerp_alt physicsSpeed_def)

lemma ornamentsFrame_CHAOS:
  "ornamentsFrame True CHAOS w dt x = 1 - (1 - dt * physicsSpeed w) * (1 - x)"
  by (simp add: ornamentsFrame_def lerp_def) (simp add: algebra_simps)

lemma mix_closed:
  "(ornamentsFrame True CHAOS w dt ^^ n) x = 1 - (1 - dt * physicsSpeed w) ^ n * (1 - x)"
proof (induction n)
  case 0
  show ?case by simp
next
  case (Suc n)
  have "(ornamentsFrame True CHAOS w dt ^^ Suc n) x =
      ornamentsFrame True CHAOS w dt ((ornamentsFrame True CHAOS w dt ^^ n) x)"
    by simp
  also have "\<dots> = 1 - (1 - dt * physicsSpeed w) * ((1 - dt * physicsSpeed w) ^ n * (1 - x))"
    unfolding Suc ornamentsFrame_CHAOS by simp
  finally show ?case by simp
qed

lemma mix_mono:
  assumes "0 < a" "a \<le> (1::real)"
  shows "1 - (1 - a) ^ n \<le> 1 - (1 - a) ^ Suc n" and "1 - (1 - a) ^ n \<le> 1"
proof -
  have q: "0 \<le> 1 - a" "1 - a \<le> 1" using assms by simp_all
  have "(1 - a) ^ Suc n \<le> (1 - a) ^ n" using q by (simp add: mult_left_le_one_le)
  then show "1 - (1 - a) ^ n \<le> 1 - (1 - a) ^ Suc n" by simp
  show "1 - (1 - a) ^ n \<le> 1" using q by simp
qed

lemma mix_close:
  assumes "0 < a" "a \<le> (1::real)" "7 \<le> real n * a"
  shows "(1 - a) ^ n \<le> 1 / 1000"
proof -
  have q: "0 \<le> 1 - a" using assms by simp
  have "1 - a \<le> exp (- a)" using exp_ge_add_one_self [of "- a"] by simp
  then have "(1 - a) ^ n \<le> exp (- a) ^ n" using q by (rule power_mono)
  also have "\<dots> = exp (- (real n * a))" by (simp add: exp_of_nat_mult [symmetric])
  also have "\<dots> \<le> exp (- 7)" using assms(3) by simp
  also have "\<dots> \<le> 1 / 1000"
    using exp7 by (simp add: exp_minus inverse_eq_divide field_simps)
  finally show ?thesis .
qed

text \<open>
  Claim C8: a frame of a mounted group updates the mix by
  mix + (target - mix) * delta * rate with rate = 2 * (1 - weight * 0.5), the target
  being 1 in CHAOS and 0 otherwise. From mix = 0 in CHAOS with a fixed delta and
  0 < delta * rate <= 1, the mix never decreases, stays at most 1, and is within 1/1000
  of 1 after every number n of frames with n * delta * rate >= 7. A heavier group has
  the smaller rate and, frame for frame, the smaller mix.
\<close>

theorem mix_converges:
  "ornamentsFrame True m w dt x =
     x + ((if m = CHAOS then 1 else 0) - x) * dt * (2 * (1 - w * 0.5)) \<and>
   physicsSpeed w = 2 * (1 - w * 0.5) \<and>
   (0 < dt * physicsSpeed w \<and> dt * physicsSpeed w \<le> 1 \<longrightarrow>
      (ornamentsFrame True CHAOS w dt ^^ n) 0 \<le> (ornamentsFrame True CHAOS w dt ^^ Suc n) 0 \<and>
      (ornamentsFrame True CHAOS w dt ^^ n) 0 \<le> 1 \<and>
      (7 \<le> real n * (dt * physicsSpeed w) \<longrightarrow>
         1 - (ornamentsFrame True CHAOS w dt ^^ n) 0 \<le> 1 / 1000)) \<and>
   (0 \<le> dt \<and> dt * physicsSpeed w \<le> 1 \<and> w \<le> w' \<longrightarrow>
      physicsSpeed w' \<le> physicsSpeed w \<and>
      (ornamentsFrame True CHAOS w' dt ^^ n) 0 \<le> (ornamentsFrame True CHAOS w dt ^^ n) 0)"
proof -
  have a: "(ornamentsFrame True CHAOS w dt ^^ n) 0 \<le> (ornamentsFrame True CHAOS w dt ^^ Suc n) 0 \<and>
      (ornamentsFrame True CHAOS w dt ^^ n) 0 \<le> 1 \<and>
      (7 \<le> real n * (dt * physicsSpeed w) \<longrightarrow>
         1 - (ornamentsFrame True CHAOS w dt ^^ n) 0 \<le> 1 / 1000)"
    if h: "0 < dt * physicsSpeed w" "dt * physicsSpeed w \<le> 1"
    unfolding mix_closed
    using mix_mono [OF h, of n] mix_close [OF h, of n] by simp
  have b: "physicsSpeed w' \<le> physicsSpeed w \<and>
      (ornamentsFrame True CHAOS w' dt ^^ n) 0 \<le> (ornamentsFrame True CHAOS w dt ^^ n) 0"
    if h: "0 \<le> dt" "dt * physicsSpeed w \<le> 1" "w \<le> w'"
  proof -
    have s: "physicsSpeed w' \<le> physicsSpeed w" using h(3) by (simp add: physicsSpeed_def)
    then have "dt * physicsSpeed w' \<le> dt * physicsSpeed w" using h(1) by (rule mult_left_mono)
    then have "(1 - dt * physicsSpeed w) ^ n \<le> (1 - dt * physicsSpeed w') ^ n"
      using h(2) by (intro power_mono) simp_all
    then show ?thesis using s unfolding mix_closed by simp
  qed
  have c: "physicsSpeed w = 2 * (1 - w * 0.5)" by (simp add: physicsSpeed_def)
  show ?thesis
    apply (intro conjI)
       apply (rule ornamentsFrame_rule)
      apply (rule c)
     apply (intro impI, elim conjE, rule a, assumption+)
    apply (intro impI, elim conjE, rule b, assumption+)
    done
qed

text \<open>
  Witness for C8: weight 0.2 at 60 frames a second has rate 1.8 and a first step of
  0.03; after 234 frames the mix is within 1/1000 of 1, and the mix of weight 0.8 is
  not above it.
\<close>

theorem mix_converges_witness:
  "(0::real) < 1 / 60 * physicsSpeed 0.2 \<and> 1 / 60 * physicsSpeed 0.2 \<le> 1 \<and>
   7 \<le> real 234 * (1 / 60 * physicsSpeed 0.2) \<and>
   ornamentsFrame True CHAOS 0.2 (1 / 60) 0 = 0.03 \<and>
   (ornamentsFrame True CHAOS 0.2 (1 / 60) ^^ 234) 0 \<le> 1 \<and>
   1 - (ornamentsFrame True CHAOS 0.2 (1 / 60) ^^ 234) 0 \<le> 1 / 1000 \<and>
   (0.2::real) \<le> 0.8 \<and>
   (ornamentsFrame True CHAOS 0.8 (1 / 60) ^^ 234) 0 \<le>
     (ornamentsFrame True CHAOS 0.2 (1 / 60) ^^ 234) 0"
proof -
  have h1: "(0::real) < 1 / 60 * physicsSpeed 0.2" by (simp add: physicsSpeed_def)
  have h2: "1 / 60 * physicsSpeed 0.2 \<le> 1" by (simp add: physicsSpeed_def)
  have h3: "7 \<le> real 234 * (1 / 60 * physicsSpeed 0.2)" by (simp add: physicsSpeed_def)
  have h4: "(0::real) \<le> 1 / 60" by simp
  have h5: "(0.2::real) \<le> 0.8" by simp
  have f: "ornamentsFrame True CHAOS 0.2 (1 / 60) 0 = 0.03"
    by (simp add: ornamentsFrame_CHAOS physicsSpeed_def)
  note t = mix_converges [of CHAOS "0.2" "1 / 60" 0 234 "0.8"]
  have i1: "0 < 1 / 60 * physicsSpeed 0.2 \<and> 1 / 60 * physicsSpeed 0.2 \<le> 1 \<longrightarrow>
      (ornamentsFrame True CHAOS 0.2 (1 / 60) ^^ 234) 0
        \<le> (ornamentsFrame True CHAOS 0.2 (1 / 60) ^^ Suc 234) 0 \<and>
      (ornamentsFrame True CHAOS 0.2 (1 / 60) ^^ 234) 0 \<le> 1 \<and>
      (7 \<le> real 234 * (1 / 60 * physicsSpeed 0.2) \<longrightarrow>
         1 - (ornamentsFrame True CHAOS 0.2 (1 / 60) ^^ 234) 0 \<le> 1 / 1000)"
    using t by (elim conjE)
  have i2: "(0::real) \<le> 1 / 60 \<and> 1 / 60 * physicsSpeed 0.2 \<le> 1 \<and> (0.2::real) \<le> 0.8 \<longrightarrow>
      physicsSpeed 0.8 \<le> physicsSpeed 0.2 \<and>
      (ornamentsFrame True CHAOS 0.8 (1 / 60) ^^ 234) 0
        \<le> (ornamentsFrame True CHAOS 0.2 (1 / 60) ^^ 234) 0"
    using t by (elim conjE)
  note j = mp [OF i1 conjI [OF h1 h2]]
  note c1 = conjunct1 [OF conjunct2 [OF j]]
  note c2 = mp [OF conjunct2 [OF conjunct2 [OF j]] h3]
  note c3 = conjunct2 [OF mp [OF i2 conjI [OF h4 conjI [OF h2 h5]]]]
  show ?thesis by (intro conjI h1 h2 h3 f c1 c2 h5 c3)
qed

section \<open>Drag and inertia\<close>

lemma treeGroupFrames_snoc:
  "treeGroupFrames (fs @ [(h, d)]) t = treeGroupFrame h d (treeGroupFrames fs t)"
  by (simp add: treeGroupFrames_def)

lemma pow166: "(0.0001::real) < 0.5 * 0.95 ^ 166"
  by (simp add: power_divide field_simps)

lemma pow167: "0.5 * 0.95 ^ 167 \<le> (0.0001::real)"
  by (simp add: power_divide field_simps)

lemma above_epsilon:
  assumes "n < 167"
  shows "(0.0001::real) < \<bar>0.5 * 0.95 ^ n\<bar>"
proof -
  from assms have "n \<le> 166" by simp
  then have "(0.95::real) ^ 166 \<le> 0.95 ^ n" by (intro power_decreasing) simp_all
  then have "(0.5::real) * 0.95 ^ 166 \<le> 0.5 * 0.95 ^ n" by (rule mult_left_mono) simp
  with pow166 have "(0.0001::real) < 0.5 * 0.95 ^ n" by (rule less_le_trans)
  also have "(0.5::real) * 0.95 ^ n \<le> \<bar>0.5 * 0.95 ^ n\<bar>" by (rule abs_ge_self)
  finally show ?thesis .
qed

lemma below_epsilon: "\<not> (0.0001::real) < \<bar>0.5 * 0.95 ^ 167\<bar>"
proof -
  have "(0::real) \<le> 0.5 * 0.95 ^ 167" by (intro mult_nonneg_nonneg zero_le_power) simp_all
  then have "\<bar>(0.5::real) * 0.95 ^ 167\<bar> = 0.5 * 0.95 ^ 167" by (rule abs_of_nonneg)
  with pow167 show ?thesis by (simp only: not_less)
qed

text \<open>While the velocity stays above the threshold it decays geometrically.\<close>

lemma inertia_decay:
  assumes "\<not> isDragging t" "groupRef t = Some rho" "velocity t = v"
    and "list_all (\<lambda>(h, delta). gesture h \<noteq> VICTORY) fs"
    and "\<And>n. n < length fs \<Longrightarrow> 0.0001 < \<bar>v * 0.95 ^ n\<bar>"
  shows "velocity (treeGroupFrames fs t) = v * 0.95 ^ length fs \<and>
     groupRef (treeGroupFrames fs t) = Some (rho + (\<Sum>j<length fs. v * 0.95 ^ j)) \<and>
     \<not> isDragging (treeGroupFrames fs t)"
  using assms(4,5)
proof (induction fs rule: rev_induct)
  case Nil
  show ?case using assms(1-3) by (simp add: treeGroupFrames_def)
next
  case (snoc f fs)
  obtain h d where f: "f = (h, d)" by force
  from snoc.prems(1) have nv: "gesture h \<noteq> VICTORY"
    and rest: "list_all (\<lambda>(h, delta). gesture h \<noteq> VICTORY) fs"
    by (simp_all add: f)
  have ih: "velocity (treeGroupFrames fs t) = v * 0.95 ^ length fs"
    "groupRef (treeGroupFrames fs t) = Some (rho + (\<Sum>j<length fs. v * 0.95 ^ j))"
    "\<not> isDragging (treeGroupFrames fs t)"
    using snoc.IH [OF rest] snoc.prems(2) by simp_all
  have big: "0.0001 < \<bar>velocity (treeGroupFrames fs t)\<bar>"
    unfolding ih(1) by (rule snoc.prems(2)) simp
  show ?case
    unfolding f treeGroupFrames_snoc
    using ih nv big by (simp add: treeGroupFrame_def)
qed

text \<open>Once the velocity is at or below the threshold it is set to 0 and stays there.\<close>

lemma inertia_stop:
  assumes "\<not> isDragging t" "groupRef t = Some rho" "velocity t = v"
    and "list_all (\<lambda>(h, delta). gesture h \<noteq> VICTORY) fs"
    and "\<And>n. n < N \<Longrightarrow> 0.0001 < \<bar>v * 0.95 ^ n\<bar>"
    and "\<not> 0.0001 < \<bar>v * 0.95 ^ N\<bar>" and "N < length fs"
  shows "velocity (treeGroupFrames fs t) = 0 \<and>
     groupRef (treeGroupFrames fs t) = Some (rho + (\<Sum>j<N. v * 0.95 ^ j)) \<and>
     \<not> isDragging (treeGroupFrames fs t)"
  using assms(4,7)
proof (induction fs rule: rev_induct)
  case Nil
  then show ?case by simp
next
  case (snoc f fs)
  obtain h d where f: "f = (h, d)" by force
  from snoc.prems have nv: "gesture h \<noteq> VICTORY"
    and rest: "list_all (\<lambda>(h, delta). gesture h \<noteq> VICTORY) fs" and len: "N \<le> length fs"
    by (simp_all add: f)
  show ?case
  proof (cases "length fs = N")
    case True
    have "\<And>n. n < length fs \<Longrightarrow> 0.0001 < \<bar>v * 0.95 ^ n\<bar>"
      using assms(5) True by simp
    from inertia_decay [OF assms(1-3) rest this] True
    have ih: "velocity (treeGroupFrames fs t) = v * 0.95 ^ N"
      "groupRef (treeGroupFrames fs t) = Some (rho + (\<Sum>j<N. v * 0.95 ^ j))"
      "\<not> isDragging (treeGroupFrames fs t)"
      by simp_all
    have small: "\<not> 0.0001 < \<bar>velocity (treeGroupFrames fs t)\<bar>"
      unfolding ih(1) by (rule assms(6))
    show ?thesis
      unfolding f treeGroupFrames_snoc
      using ih(2,3) nv small by (simp add: treeGroupFrame_def)
  next
    case False
    with len have "N < length fs" by simp
    from snoc.IH [OF rest this]
    show ?thesis
      unfolding f treeGroupFrames_snoc
      using nv by (simp add: treeGroupFrame_def)
  qed
qed

lemma drag_step:
  assumes "isDragging t" "groupRef t = Some rot"
  shows "velocity (handlePointerMove (previousMouseX t + 100) t) = 0.5"
    and "groupRef (handlePointerMove (previousMouseX t + 100) t) = Some (rot + 0.5)"
    and "velocity (handlePointerUp (handlePointerMove (previousMouseX t + 100) t)) = 0.5"
    and "groupRef (handlePointerUp (handlePointerMove (previousMouseX t + 100) t)) = Some (rot + 0.5)"
    and "\<not> isDragging (handlePointerUp (handlePointerMove (previousMouseX t + 100) t))"
  using assms by (simp_all add: handlePointerMove_def handlePointerUp_def Let_def)

lemma idle_frames: "list_all (\<lambda>(h, delta). gesture h \<noteq> VICTORY) (replicate n idleFrame)"
  by (induction n) (simp_all add: idleFrame_def initialStore_def)

text \<open>
  Claim C9: while dragging a mounted group, a pointer move of 100 pixels adds
  100 * 0.005 = 0.5 to the rotation and stores the velocity 0.5. After pointer-up, over
  frames without a VICTORY gesture, the velocity after k frames is 0.5 * 0.95^k for
  every k up to 167, each frame having added the velocity before it to the rotation;
  it is above 0.0001 for k < 167 and not above it at k = 167, so the 168th frame sets
  it to exactly 0, where it stays, the rotation no longer moving.
\<close>

theorem drag_inertia:
  "isDragging t \<and> groupRef t = Some rot \<and> list_all (\<lambda>(h, delta). gesture h \<noteq> VICTORY) fs \<longrightarrow>
   (let moved = handlePointerMove (previousMouseX t + 100) t;
        t' = treeGroupFrames fs (handlePointerUp moved)
    in velocity moved = 0.5 \<and> groupRef moved = Some (rot + 0.5) \<and>
       (length fs \<le> 167 \<longrightarrow>
          velocity t' = 0.5 * 0.95 ^ length fs \<and>
          groupRef t' = Some (rot + 0.5 + (\<Sum>j<length fs. 0.5 * 0.95 ^ j))) \<and>
       (length fs < 167 \<longrightarrow> 0.0001 < \<bar>velocity t'\<bar>) \<and>
       (length fs = 167 \<longrightarrow> \<not> 0.0001 < \<bar>velocity t'\<bar>) \<and>
       (167 < length fs \<longrightarrow>
          velocity t' = 0 \<and>
          groupRef t' = Some (rot + 0.5 + (\<Sum>j<167. 0.5 * 0.95 ^ j))))"
proof (intro impI, elim conjE)
  assume d: "isDragging t" and g: "groupRef t = Some rot"
    and nv: "list_all (\<lambda>(h, delta). gesture h \<noteq> VICTORY) fs"
  let ?m = "handlePointerMove (previousMouseX t + 100) t"
  let ?t = "treeGroupFrames fs (handlePointerUp ?m)"
  note ds = drag_step [OF d g]
  have a: "velocity ?t = 0.5 * 0.95 ^ length fs \<and>
      groupRef ?t = Some (rot + 0.5 + (\<Sum>j<length fs. 0.5 * 0.95 ^ j))"
    if "length fs \<le> 167"
  proof -
    have "0.0001 < \<bar>(0.5::real) * 0.95 ^ n\<bar>" if "n < length fs" for n
      using that \<open>length fs \<le> 167\<close> by (intro above_epsilon) simp
    from inertia_decay [OF ds(5) ds(4) ds(3) nv this] show ?thesis by blast
  qed
  have b: "0.0001 < \<bar>velocity ?t\<bar>" if "length fs < 167"
  proof -
    from that have "length fs \<le> 167" by simp
    from a [OF this] have v: "velocity ?t = 0.5 * 0.95 ^ length fs" by (rule conjunct1)
    show ?thesis unfolding v by (rule above_epsilon [OF that])
  qed
  have c: "\<not> 0.0001 < \<bar>velocity ?t\<bar>" if "length fs = 167"
  proof -
    from that have "length fs \<le> 167" by simp
    from a [OF this] have "velocity ?t = 0.5 * 0.95 ^ length fs" by (rule conjunct1)
    then have v: "velocity ?t = 0.5 * 0.95 ^ 167" unfolding that .
    show ?thesis unfolding v by (rule below_epsilon)
  qed
  have e: "velocity ?t = 0 \<and> groupRef ?t = Some (rot + 0.5 + (\<Sum>j<167. 0.5 * 0.95 ^ j))"
    if "167 < length fs"
    using inertia_stop [OF ds(5) ds(4) ds(3) nv above_epsilon below_epsilon that] by blast
  show "let moved = ?m; t' = treeGroupFrames fs (handlePointerUp moved)
    in velocity moved = 0.5 \<and> groupRef moved = Some (rot + 0.5) \<and>
       (length fs \<le> 167 \<longrightarrow>
          velocity t' = 0.5 * 0.95 ^ length fs \<and>
          groupRef t' = Some (rot + 0.5 + (\<Sum>j<length fs. 0.5 * 0.95 ^ j))) \<and>
       (length fs < 167 \<longrightarrow> 0.0001 < \<bar>velocity t'\<bar>) \<and>
       (length fs = 167 \<longrightarrow> \<not> 0.0001 < \<bar>velocity t'\<bar>) \<and>
       (167 < length fs \<longrightarrow>
          velocity t' = 0 \<and>
          groupRef t' = Some (rot + 0.5 + (\<Sum>j<167. 0.5 * 0.95 ^ j)))"
    unfolding Let_def
    by (intro conjI impI ds(1) ds(2) conjunct1 [OF a] conjunct2 [OF a] b c
        conjunct1 [OF e] conjunct2 [OF e])
qed

text \<open>
  Witness for C9: a grabbed group at rotation 0, dragged by 100 pixels and released,
  has velocity 0.5 * 0.95^2 after 2 idle frames and velocity 0 after 168.
\<close>

theorem drag_inertia_witness:
  "isDragging grabbed \<and> groupRef grabbed = Some 0 \<and>
   list_all (\<lambda>(h, delta). gesture h \<noteq> VICTORY) (replicate 2 idleFrame) \<and>
   list_all (\<lambda>(h, delta). gesture h \<noteq> VICTORY) (replicate 168 idleFrame) \<and>
   velocity (handlePointerMove (previousMouseX grabbed + 100) grabbed) = 0.5 \<and>
   groupRef (handlePointerMove (previousMouseX grabbed + 100) grabbed) = Some (0 + 0.5) \<and>
   velocity (treeGroupFrames (replicate 2 idleFrame)
     (handlePointerUp (handlePointerMove (previousMouseX grabbed + 100) grabbed)))
     = 0.5 * 0.95 ^ 2 \<and>
   velocity (treeGroupFrames (replicate 168 idleFrame)
     (handlePointerUp (handlePointerMove (previousMouseX grabbed + 100) grabbed))) = 0"
proof -
  have d: "isDragging grabbed" and g: "groupRef grabbed = Some 0"
    by (simp_all add: grabbed_def)
  have l2: "length (replicate 2 idleFrame) \<le> 167" "length (replicate 2 idleFrame) = 2"
    and l168: "167 < length (replicate 168 idleFrame)"
    by simp_all
  note h2 = conjI [OF d conjI [OF g idle_frames [of 2]]]
  note h168 = conjI [OF d conjI [OF g idle_frames [of 168]]]
  note t2 = mp [OF drag_inertia [of grabbed 0 "replicate 2 idleFrame"] h2, unfolded Let_def]
  note t168 = mp [OF drag_inertia [of grabbed 0 "replicate 168 idleFrame"] h168, unfolded Let_def]
  note v0 = conjunct1 [OF t2]
  note r0 = conjunct1 [OF conjunct2 [OF t2]]
  note v2 = conjunct1 [OF mp [OF conjunct1 [OF conjunct2 [OF conjunct2 [OF t2]]] l2(1)],
      unfolded l2(2)]
  note v168 = conjunct1 [OF mp [OF conjunct2 [OF conjunct2 [OF conjunct2 [OF conjunct2
      [OF conjunct2 [OF t168]]]]] l168]]
  show ?thesis by (intro conjI d g idle_frames v0 r0 v2 v168)
qed

section \<open>The ornament layout\<close>

lemma distanceTo_commute: "distanceTo a b = distanceTo b a"
  by (cases a, cases b) (simp add: distanceTo_def power2_commute)

lemma collision_iff:
  "collision p R occ \<longleftrightarrow> (\<exists>other \<in> set occ. distanceTo p (pos other) < R + radius other)"
  by (induction occ) auto

lemma pairwiseClear_snoc:
  assumes "pairwiseClear occ" and "\<not> collision p R occ"
  shows "pairwiseClear (occ @ [\<lparr> pos = p, radius = R \<rparr>])"
  unfolding pairwiseClear_def
proof (intro allI impI, elim conjE)
  fix i j
  assume ij: "i < j" and j: "j < length (occ @ [\<lparr> pos = p, radius = R \<rparr>])"
  show "radius ((occ @ [\<lparr> pos = p, radius = R \<rparr>]) ! i) +
        radius ((occ @ [\<lparr> pos = p, radius = R \<rparr>]) ! j)
        \<le> distanceTo (pos ((occ @ [\<lparr> pos = p, radius = R \<rparr>]) ! i))
             (pos ((occ @ [\<lparr> pos = p, radius = R \<rparr>]) ! j))"
  proof (cases "j < length occ")
    case True
    with ij assms(1) show ?thesis by (simp add: pairwiseClear_def nth_append)
  next
    case False
    with j have jl: "j = length occ" by simp
    with ij have il: "i < length occ" by simp
    then have "occ ! i \<in> set occ" by simp
    with assms(2) have "\<not> distanceTo p (pos (occ ! i)) < R + radius (occ ! i)"
      by (auto simp add: collision_iff)
    then have "radius (occ ! i) + R \<le> distanceTo (pos (occ ! i)) p"
      by (simp add: distanceTo_commute [of p] add.commute)
    with jl il show ?thesis by (simp add: nth_append)
  qed
qed

text \<open>The attempt loop from a counter \<open>a\<close>: the whole budget fails, or a first candidate fits.\<close>

lemma tryPlace_all_fail:
  assumes "a \<le> 100" and "\<forall>m < 100 - a. collision (candidate rnd (k + 2 * m)) R occ"
  shows "tryPlace rnd R occ k p a False =
     (k + 2 * (100 - a), (if a = 100 then p else candidate rnd (k + 2 * (99 - a))), 100, False)"
  using assms
proof (induction "100 - a" arbitrary: a k p)
  case 0
  then have "a = 100" by simp
  then show ?case by (subst tryPlace.simps) simp
next
  case (Suc n)
  then have a: "a < 100" and n: "n = 100 - (a + 1)" by simp_all
  from Suc.prems(2) a have c0: "collision (candidate rnd k) R occ" by force
  have rest: "\<forall>m < 100 - (a + 1). collision (candidate rnd ((k + 2) + 2 * m)) R occ"
  proof (intro allI impI)
    fix m assume "m < 100 - (a + 1)"
    then have "Suc m < 100 - a" by simp
    with Suc.prems(2) have "collision (candidate rnd (k + 2 * Suc m)) R occ" by blast
    then show "collision (candidate rnd ((k + 2) + 2 * m)) R occ" by (simp add: add.assoc)
  qed
  from a have "a + 1 \<le> 100" by simp
  note ih = Suc.hyps(1) [OF n this rest, of "candidate rnd k"]
  have k1: "k + 2 + 2 * (100 - (a + 1)) = k + 2 * (100 - a)" using a by simp
  have p1: "(if a + 1 = 100 then candidate rnd k
             else candidate rnd (k + 2 + 2 * (99 - (a + 1)))) = candidate rnd (k + 2 * (99 - a))"
  proof (cases "a = 99")
    case True
    then show ?thesis by simp
  next
    case False
    with a have e: "k + 2 + 2 * (99 - (a + 1)) = k + 2 * (99 - a)" by simp
    from False have "a + 1 \<noteq> 100" by simp
    then show ?thesis by (simp only: e if_False)
  qed
  have "tryPlace rnd R occ k p a False =
      tryPlace rnd R occ (k + 2) (candidate rnd k) (a + 1) False"
    using a c0 by (subst tryPlace.simps) (simp add: Let_def)
  also note ih
  finally show ?case using a by (simp only: k1 p1) simp
qed

lemma tryPlace_first_fit:
  assumes "a + m0 < 100" and "\<forall>m < m0. collision (candidate rnd (k + 2 * m)) R occ"
    and "\<not> collision (candidate rnd (k + 2 * m0)) R occ"
  shows "tryPlace rnd R occ k p a False =
     (k + 2 * (m0 + 1), candidate rnd (k + 2 * m0), a + m0 + 1, True)"
  using assms
proof (induction m0 arbitrary: a k p)
  case 0
  then have a: "a < 100" by simp
  from 0 a show ?case
    by (subst tryPlace.simps, simp add: Let_def, subst tryPlace.simps, simp)
next
  case (Suc m0)
  then have a: "a < 100" by simp
  from Suc.prems(2) have c0: "collision (candidate rnd k) R occ" by force
  have rest: "\<forall>m < m0. collision (candidate rnd ((k + 2) + 2 * m)) R occ"
  proof (intro allI impI)
    fix m assume "m < m0"
    then have "Suc m < Suc m0" by simp
    with Suc.prems(2) have "collision (candidate rnd (k + 2 * Suc m)) R occ" by blast
    then show "collision (candidate rnd ((k + 2) + 2 * m)) R occ" by (simp add: add.assoc)
  qed
  have fit: "\<not> collision (candidate rnd ((k + 2) + 2 * m0)) R occ"
    using Suc.prems(3) by (simp add: add.assoc)
  have "(a + 1) + m0 < 100" using Suc.prems(1) by simp
  from Suc.IH [OF this rest fit, of "candidate rnd k"]
  have "tryPlace rnd R occ (k + 2) (candidate rnd k) (a + 1) False =
      (k + 2 + 2 * (m0 + 1), candidate rnd (k + 2 + 2 * m0), a + 1 + m0 + 1, True)" .
  then show ?case using a c0 by (subst tryPlace.simps) (simp add: Let_def add.assoc)
qed

text \<open>What the loop returns as valid does not collide.\<close>

lemma tryPlace_valid:
  assumes "tryPlace rnd R occ k p a v = (k', p', a', v')" and "v \<longrightarrow> \<not> collision p R occ"
  shows "v' \<longrightarrow> \<not> collision p' R occ"
  using assms
proof (induction rnd R occ k p a v rule: tryPlace.induct)
  case (1 rnd R occ k p a v)
  show ?case
  proof (cases "\<not> v \<and> a < 100")
    case True
    then have "tryPlace rnd R occ k p a v =
        tryPlace rnd R occ (k + 2) (candidate rnd k) (a + 1)
          (\<not> collision (candidate rnd k) R occ)"
      by (subst tryPlace.simps) (simp add: Let_def)
    with "1.prems"(1) have "tryPlace rnd R occ (k + 2) (candidate rnd k) (a + 1)
          (\<not> collision (candidate rnd k) R occ) = (k', p', a', v')" by simp
    from "1.IH" [OF True refl this] show ?thesis by simp
  next
    case False
    then have "tryPlace rnd R occ k p a v = (k, p, a, v)"
      by (subst tryPlace.simps) auto
    with "1.prems" show ?thesis by simp
  qed
qed

lemma placeOne_drop:
  assumes "\<forall>m < 100. collision (candidate rnd (cursor st + 2 * m)) R (occupiedPositions st)"
  shows "placeOne rnd R st = st \<lparr> cursor := cursor st + 200 \<rparr>"
proof -
  have "tryPlace rnd R (occupiedPositions st) (cursor st) (0, 0, 0) 0 False =
      (cursor st + 200, candidate rnd (cursor st + 198), 100, False)"
    using tryPlace_all_fail [of 0 rnd "cursor st" R "occupiedPositions st" "(0, 0, 0)"] assms
    by simp
  then show ?thesis by (simp add: placeOne_def)
qed

lemma placeOne_fit:
  assumes "m0 < 100"
    and "\<forall>m < m0. collision (candidate rnd (cursor st + 2 * m)) R (occupiedPositions st)"
    and "\<not> collision (candidate rnd (cursor st + 2 * m0)) R (occupiedPositions st)"
  shows "targetPositions (placeOne rnd R st) =
           targetPositions st @ [candidate rnd (cursor st + 2 * m0)]"
    and "occupiedPositions (placeOne rnd R st) =
           occupiedPositions st @ [\<lparr> pos = candidate rnd (cursor st + 2 * m0), radius = R \<rparr>]"
    and "cursor (placeOne rnd R st) = cursor st + 2 * (m0 + 1) + 5"
proof -
  have "tryPlace rnd R (occupiedPositions st) (cursor st) (0, 0, 0) 0 False =
      (cursor st + 2 * (m0 + 1), candidate rnd (cursor st + 2 * m0), 0 + m0 + 1, True)"
    using assms by (intro tryPlace_first_fit) simp_all
  then show "targetPositions (placeOne rnd R st) =
           targetPositions st @ [candidate rnd (cursor st + 2 * m0)]"
    and "occupiedPositions (placeOne rnd R st) =
           occupiedPositions st @ [\<lparr> pos = candidate rnd (cursor st + 2 * m0), radius = R \<rparr>]"
    and "cursor (placeOne rnd R st) = cursor st + 2 * (m0 + 1) + 5"
    by (simp_all add: placeOne_def Let_def)
qed

lemma layoutInvD:
  assumes "layoutInv base R st"
  shows "pairwiseClear (occupiedPositions st)"
    and "occupiedPositions st = base @ map (\<lambda>p. \<lparr> pos = p, radius = R \<rparr>) (targetPositions st)"
  using assms unfolding layoutInv_def by blast+

lemma placeOne_inv:
  assumes "layoutInv base R st"
  shows "layoutInv base R (placeOne rnd R st)"
    and "length (targetPositions (placeOne rnd R st)) \<le> length (targetPositions st) + 1"
proof -
  obtain k p a v where tp:
    "tryPlace rnd R (occupiedPositions st) (cursor st) (0, 0, 0) 0 False = (k, p, a, v)"
    by (metis prod_cases4)
  have fit: "v \<longrightarrow> \<not> collision p R (occupiedPositions st)"
    by (rule tryPlace_valid [OF tp]) simp
  note pc = layoutInvD(1) [OF assms] and eq = layoutInvD(2) [OF assms]
  show "layoutInv base R (placeOne rnd R st)"
  proof (cases v)
    case True
    with fit have nc: "\<not> collision p R (occupiedPositions st)" by simp
    have "pairwiseClear (occupiedPositions st @ [\<lparr> pos = p, radius = R \<rparr>])"
      by (rule pairwiseClear_snoc [OF pc nc])
    moreover have "occupiedPositions st @ [\<lparr> pos = p, radius = R \<rparr>] =
        base @ map (\<lambda>p. \<lparr> pos = p, radius = R \<rparr>) (targetPositions st @ [p])"
      using eq by simp
    ultimately show ?thesis
      using True tp by (simp add: layoutInv_def placeOne_def Let_def)
  next
    case False
    have "placeOne rnd R st = st \<lparr> cursor := k \<rparr>"
      using False tp by (simp add: placeOne_def)
    then show ?thesis using pc eq by (simp add: layoutInv_def)
  qed
  show "length (targetPositions (placeOne rnd R st)) \<le> length (targetPositions st) + 1"
    using tp by (cases v) (simp_all add: placeOne_def Let_def)
qed

lemma placeLoop_inv:
  assumes "layoutInv base R st"
  shows "layoutInv base R (placeLoop rnd R n i st) \<and>
     length (targetPositions (placeLoop rnd R n i st)) \<le> length (targetPositions st) + (n - i)"
  using assms
proof (induction rnd R n i st rule: placeLoop.induct)
  case (1 rnd R n i st)
  show ?case
  proof (cases "i < n")
    case True
    have step: "placeLoop rnd R n i st = placeLoop rnd R n (i + 1) (placeOne rnd R st)"
      using True by (subst placeLoop.simps) simp
    note po = placeOne_inv [OF "1.prems", of rnd]
    from "1.IH" [OF True po(1)]
    have A: "layoutInv base R (placeLoop rnd R n (i + 1) (placeOne rnd R st))"
      and B: "length (targetPositions (placeLoop rnd R n (i + 1) (placeOne rnd R st)))
        \<le> length (targetPositions (placeOne rnd R st)) + (n - (i + 1))"
      by simp_all
    from B po(2) True
    have "length (targetPositions (placeLoop rnd R n (i + 1) (placeOne rnd R st)))
        \<le> length (targetPositions st) + (n - i)" by linarith
    with A show ?thesis unfolding step by simp
  next
    case False
    then have "placeLoop rnd R n i st = st" by (subst placeLoop.simps) simp
    with "1.prems" show ?thesis by simp
  qed
qed

lemma placeConfig_spec:
  assumes "pairwiseClear (genOccupied g)"
  shows "pairwiseClear (genOccupied (placeConfig rnd c g)) \<and>
     (\<exists>d. groups (placeConfig rnd c g) = (groups g) (cfgId c \<mapsto> d) \<and>
        genOccupied (placeConfig rnd c g) = genOccupied g @ entriesOf c (Some d) \<and>
        length (targetPositions d) \<le> cfgCount c)"
proof -
  let ?init = "\<lparr> targetPositions = [], chaosPositions = [], randomRotations = [],
                 occupiedPositions = genOccupied g, cursor = genCursor g \<rparr>"
  let ?R = "cfgScale c * 1.1"
  let ?st = "placeLoop rnd ?R (cfgCount c) 0 ?init"
  have init: "layoutInv (genOccupied g) ?R ?init"
    unfolding layoutInv_def using assms by simp
  note pl = placeLoop_inv [OF init, of rnd "cfgCount c" 0]
  have inv: "layoutInv (genOccupied g) ?R ?st" by (rule conjunct1 [OF pl])
  have len: "length (targetPositions ?st) \<le> cfgCount c"
    using conjunct2 [OF pl] by simp
  have o: "genOccupied (placeConfig rnd c g) = occupiedPositions ?st"
    and g: "groups (placeConfig rnd c g) = (groups g) (cfgId c \<mapsto>
        \<lparr> targetPositions = targetPositions ?st, chaosPositions = chaosPositions ?st,
          randomRotations = randomRotations ?st \<rparr>)"
    by (simp_all add: placeConfig_def Let_def)
  have e: "occupiedPositions ?st = genOccupied g @ entriesOf c (Some
        \<lparr> targetPositions = targetPositions ?st, chaosPositions = chaosPositions ?st,
          randomRotations = randomRotations ?st \<rparr>)"
    using layoutInvD(2) [OF inv] by (simp add: entriesOf_def)
  have "pairwiseClear (genOccupied (placeConfig rnd c g))"
    unfolding o by (rule layoutInvD(1) [OF inv])
  moreover have "\<exists>d. groups (placeConfig rnd c g) = (groups g) (cfgId c \<mapsto> d) \<and>
        genOccupied (placeConfig rnd c g) = genOccupied g @ entriesOf c (Some d) \<and>
        length (targetPositions d) \<le> cfgCount c"
    by (rule exI [of _ "\<lparr> targetPositions = targetPositions ?st,
          chaosPositions = chaosPositions ?st, randomRotations = randomRotations ?st \<rparr>"])
       (use g o e len in simp)
  ultimately show ?thesis by blast
qed

lemma pairwiseClear_Nil: "pairwiseClear []"
  by (simp add: pairwiseClear_def)

lemma generate_spec:
  "\<exists>d1 d2 d3 d4.
     groups (generate rnd) =
       [''gold'' \<mapsto> d1, ''red'' \<mapsto> d2, ''silver'' \<mapsto> d3, ''box'' \<mapsto> d4] \<and>
     genOccupied (generate rnd) =
       entriesOf (configs ! 0) (Some d1) @ entriesOf (configs ! 1) (Some d2) @
       entriesOf (configs ! 2) (Some d3) @ entriesOf (configs ! 3) (Some d4) \<and>
     length (targetPositions d1) \<le> 250 \<and> length (targetPositions d2) \<le> 180 \<and>
     length (targetPositions d3) \<le> 100 \<and> length (targetPositions d4) \<le> 60 \<and>
     pairwiseClear (genOccupied (generate rnd))"
proof -
  let ?gz = "\<lparr> genCursor = 0, genOccupied = [], groups = Map.empty \<rparr>"
  let ?ga = "placeConfig rnd (configs ! 0) ?gz"
  let ?gb = "placeConfig rnd (configs ! 1) ?ga"
  let ?gc = "placeConfig rnd (configs ! 2) ?gb"
  let ?gd = "placeConfig rnd (configs ! 3) ?gc"
  have gen: "generate rnd = ?gd" by (simp add: generate_def configs_def)
  have c0: "pairwiseClear (genOccupied ?gz)" by (simp add: pairwiseClear_Nil)
  note s1 = placeConfig_spec [OF c0, of rnd "configs ! 0"]
  note s2 = placeConfig_spec [OF conjunct1 [OF s1], of rnd "configs ! 1"]
  note s3 = placeConfig_spec [OF conjunct1 [OF s2], of rnd "configs ! 2"]
  note s4 = placeConfig_spec [OF conjunct1 [OF s3], of rnd "configs ! 3"]
  from s1 obtain d1 where d1: "groups ?ga = (groups ?gz) (cfgId (configs ! 0) \<mapsto> d1)"
    "genOccupied ?ga = genOccupied ?gz @ entriesOf (configs ! 0) (Some d1)"
    "length (targetPositions d1) \<le> cfgCount (configs ! 0)" by blast
  from s2 obtain d2 where d2: "groups ?gb = (groups ?ga) (cfgId (configs ! 1) \<mapsto> d2)"
    "genOccupied ?gb = genOccupied ?ga @ entriesOf (configs ! 1) (Some d2)"
    "length (targetPositions d2) \<le> cfgCount (configs ! 1)" by blast
  from s3 obtain d3 where d3: "groups ?gc = (groups ?gb) (cfgId (configs ! 2) \<mapsto> d3)"
    "genOccupied ?gc = genOccupied ?gb @ entriesOf (configs ! 2) (Some d3)"
    "length (targetPositions d3) \<le> cfgCount (configs ! 2)" by blast
  from s4 obtain d4 where d4: "groups ?gd = (groups ?gc) (cfgId (configs ! 3) \<mapsto> d4)"
    "genOccupied ?gd = genOccupied ?gc @ entriesOf (configs ! 3) (Some d4)"
    "length (targetPositions d4) \<le> cfgCount (configs ! 3)" by blast
  have ids: "cfgId (configs ! 0) = ''gold''" "cfgId (configs ! 1) = ''red''"
    "cfgId (configs ! 2) = ''silver''" "cfgId (configs ! 3) = ''box''"
    "cfgCount (configs ! 0) = 250" "cfgCount (configs ! 1) = 180"
    "cfgCount (configs ! 2) = 100" "cfgCount (configs ! 3) = 60"
    by (simp_all add: configs_def)
  have g: "groups (generate rnd) =
       [''gold'' \<mapsto> d1, ''red'' \<mapsto> d2, ''silver'' \<mapsto> d3, ''box'' \<mapsto> d4]"
    unfolding gen d4(1) d3(1) d2(1) d1(1) ids by simp
  have o: "genOccupied (generate rnd) =
       entriesOf (configs ! 0) (Some d1) @ entriesOf (configs ! 1) (Some d2) @
       entriesOf (configs ! 2) (Some d3) @ entriesOf (configs ! 3) (Some d4)"
    unfolding gen d4(2) d3(2) d2(2) d1(2) by simp
  have c: "pairwiseClear (genOccupied (generate rnd))"
    unfolding gen by (rule conjunct1 [OF s4])
  from g o c d1(3) d2(3) d3(3) d4(3) show ?thesis unfolding ids by blast
qed

lemma placed_is_occupied: "placedEntries (ornamentGroups rnd) = genOccupied (generate rnd)"
proof -
  from generate_spec [of rnd] obtain d1 d2 d3 d4 where
    g: "groups (generate rnd) =
       [''gold'' \<mapsto> d1, ''red'' \<mapsto> d2, ''silver'' \<mapsto> d3, ''box'' \<mapsto> d4]"
    and o: "genOccupied (generate rnd) =
       entriesOf (configs ! 0) (Some d1) @ entriesOf (configs ! 1) (Some d2) @
       entriesOf (configs ! 2) (Some d3) @ entriesOf (configs ! 3) (Some d4)"
    by blast
  show ?thesis
    unfolding o by (simp add: placedEntries_def ornamentGroups_def g configs_def)
qed

lemma candidate_noRandom: "candidate noRandom k = (6.5, - 8, 0)"
  by (simp add: candidate_def noRandom_def TREE_HEIGHT_def TREE_RADIUS_def)

lemma candidate_halfAtSeven:
  "candidate halfAtSeven 0 = (6.5, - 8, 0)" "candidate halfAtSeven 7 = (3.5, 0, 0)"
  by (simp_all add: candidate_def halfAtSeven_def TREE_HEIGHT_def TREE_RADIUS_def)

lemma distanceTo_self: "distanceTo p p = 0"
  by (cases p) (simp add: distanceTo_def)

lemma blocked:
  assumes "e \<in> set occ" and "pos e = p" and "0 < R + radius e"
  shows "collision p R occ"
  unfolding collision_iff using assms by (auto simp add: distanceTo_self intro!: bexI [of _ e])

lemma placeOne_keeps:
  "\<exists>ys. occupiedPositions (placeOne rnd R st) = occupiedPositions st @ ys"
proof -
  obtain k p a v where tp:
    "tryPlace rnd R (occupiedPositions st) (cursor st) (0, 0, 0) 0 False = (k, p, a, v)"
    by (metis prod_cases4)
  then show ?thesis by (cases v) (simp_all add: placeOne_def Let_def)
qed

lemma placeLoop_keeps:
  "\<exists>ys. occupiedPositions (placeLoop rnd R n i st) = occupiedPositions st @ ys"
proof (induction rnd R n i st rule: placeLoop.induct)
  case (1 rnd R n i st)
  show ?case
  proof (cases "i < n")
    case True
    have step: "placeLoop rnd R n i st = placeLoop rnd R n (i + 1) (placeOne rnd R st)"
      using True by (subst placeLoop.simps) simp
    from "1.IH" [OF True] obtain ys where
      "occupiedPositions (placeLoop rnd R n (i + 1) (placeOne rnd R st)) =
         occupiedPositions (placeOne rnd R st) @ ys" by blast
    moreover obtain zs where "occupiedPositions (placeOne rnd R st) = occupiedPositions st @ zs"
      using placeOne_keeps by blast
    ultimately show ?thesis unfolding step by simp
  next
    case False
    then have "placeLoop rnd R n i st = st" by (subst placeLoop.simps) simp
    then show ?thesis by simp
  qed
qed

lemma placeConfig_keeps:
  "\<exists>ys. genOccupied (placeConfig rnd c g) = genOccupied g @ ys"
  using placeLoop_keeps [of rnd "cfgScale c * 1.1" "cfgCount c" 0
      "\<lparr> targetPositions = [], chaosPositions = [], randomRotations = [],
         occupiedPositions = genOccupied g, cursor = genCursor g \<rparr>"]
  by (simp add: placeConfig_def Let_def)

lemma placeConfig_groups:
  "k \<noteq> cfgId c \<Longrightarrow> groups (placeConfig rnd c g) k = groups g k"
  by (simp add: placeConfig_def Let_def)

text \<open>With a candidate position already taken, a constant random source places nothing.\<close>

lemma placeLoop_blocked:
  assumes "\<forall>k. candidate rnd k = p" and "e \<in> set (occupiedPositions st)" and "pos e = p"
    and "0 < R + radius e"
  shows "targetPositions (placeLoop rnd R n i st) = targetPositions st \<and>
     occupiedPositions (placeLoop rnd R n i st) = occupiedPositions st"
  using assms
proof (induction rnd R n i st rule: placeLoop.induct)
  case (1 rnd R n i st)
  show ?case
  proof (cases "i < n")
    case True
    have step: "placeLoop rnd R n i st = placeLoop rnd R n (i + 1) (placeOne rnd R st)"
      using True by (subst placeLoop.simps) simp
    have "collision p R (occupiedPositions st)"
      by (rule blocked [OF "1.prems"(2,3,4)])
    with "1.prems"(1)
    have "\<forall>m < 100. collision (candidate rnd (cursor st + 2 * m)) R (occupiedPositions st)"
      by simp
    then have po: "placeOne rnd R st = st \<lparr> cursor := cursor st + 200 \<rparr>"
      by (rule placeOne_drop)
    have "e \<in> set (occupiedPositions (placeOne rnd R st))"
      using "1.prems"(2) by (simp add: po)
    from "1.IH" [OF True "1.prems"(1) this "1.prems"(3,4)]
    show ?thesis unfolding step by (simp add: po)
  next
    case False
    then have "placeLoop rnd R n i st = st" by (subst placeLoop.simps) simp
    then show ?thesis by simp
  qed
qed

lemma placeConfig_first:
  "placeConfig rnd c \<lparr> genCursor = 0, genOccupied = [], groups = Map.empty \<rparr> =
     \<lparr> genCursor = cursor (placeLoop rnd (cfgScale c * 1.1) (cfgCount c) 0 emptyPlacing),
       genOccupied = occupiedPositions (placeLoop rnd (cfgScale c * 1.1) (cfgCount c) 0 emptyPlacing),
       groups = [cfgId c \<mapsto>
         \<lparr> targetPositions = targetPositions (placeLoop rnd (cfgScale c * 1.1) (cfgCount c) 0 emptyPlacing),
           chaosPositions = chaosPositions (placeLoop rnd (cfgScale c * 1.1) (cfgCount c) 0 emptyPlacing),
           randomRotations = randomRotations (placeLoop rnd (cfgScale c * 1.1) (cfgCount c) 0 emptyPlacing) \<rparr>] \<rparr>"
  by (simp add: placeConfig_def Let_def emptyPlacing_def)

text \<open>Under \<open>noRandom\<close> a group placed first gets one ornament, whatever its count.\<close>

lemma noRandom_one:
  assumes "0 < R" and "0 < n"
  shows "targetPositions (placeLoop noRandom R n 0 emptyPlacing) = [(6.5, - 8, 0)]"
proof -
  let ?first = "placeOne noRandom R emptyPlacing"
  have e: "occupiedPositions emptyPlacing = []" "targetPositions emptyPlacing = []"
    "cursor emptyPlacing = 0"
    by (simp_all add: emptyPlacing_def)
  have nc: "\<not> collision (candidate noRandom (cursor emptyPlacing + 2 * 0)) R
      (occupiedPositions emptyPlacing)"
    by (simp add: e)
  have fit: "targetPositions ?first = [(6.5, - 8, 0)]"
    "occupiedPositions ?first = [\<lparr> pos = (6.5, - 8, 0), radius = R \<rparr>]"
    using placeOne_fit(1,2) [of 0 noRandom emptyPlacing R, OF _ _ nc]
    by (simp_all add: candidate_noRandom e)
  have step: "placeLoop noRandom R n 0 emptyPlacing = placeLoop noRandom R n (0 + 1) ?first"
    using assms(2) by (subst placeLoop.simps) simp
  have "targetPositions (placeLoop noRandom R n (0 + 1) ?first) = targetPositions ?first"
    by (rule conjunct1 [OF placeLoop_blocked
          [of noRandom "(6.5, - 8, 0)" "\<lparr> pos = (6.5, - 8, 0), radius = R \<rparr>"]])
       (use assms(1) in \<open>simp_all add: candidate_noRandom fit\<close>)
  then show ?thesis unfolding step by (simp only: fit)
qed

lemma gold_short:
  "\<exists>d. ornamentGroups noRandom ''gold'' = Some d \<and> length (targetPositions d) = 1"
proof -
  let ?ga = "placeConfig noRandom (configs ! 0)
      \<lparr> genCursor = 0, genOccupied = [], groups = Map.empty \<rparr>"
  let ?gb = "placeConfig noRandom (configs ! 1) ?ga"
  let ?gc = "placeConfig noRandom (configs ! 2) ?gb"
  let ?gd = "placeConfig noRandom (configs ! 3) ?gc"
  have gen: "generate noRandom = ?gd" by (simp add: generate_def configs_def)
  have ids: "''gold'' \<noteq> cfgId (configs ! 1)" "''gold'' \<noteq> cfgId (configs ! 2)"
    "''gold'' \<noteq> cfgId (configs ! 3)"
    by (simp_all add: configs_def)
  have c0: "cfgId (configs ! 0) = ''gold''" "0 < cfgScale (configs ! 0) * 1.1"
    "0 < cfgCount (configs ! 0)"
    by (simp_all add: configs_def)
  have "groups ?gd ''gold'' = groups ?ga ''gold''"
    by (simp only: placeConfig_groups [OF ids(1)] placeConfig_groups [OF ids(2)]
        placeConfig_groups [OF ids(3)])
  also have "\<dots> = Some
      \<lparr> targetPositions = [(6.5, - 8, 0)],
        chaosPositions = chaosPositions (placeLoop noRandom (cfgScale (configs ! 0) * 1.1)
          (cfgCount (configs ! 0)) 0 emptyPlacing),
        randomRotations = randomRotations (placeLoop noRandom (cfgScale (configs ! 0) * 1.1)
          (cfgCount (configs ! 0)) 0 emptyPlacing) \<rparr>"
    unfolding placeConfig_first noRandom_one [OF c0(2,3)] by (simp add: c0(1))
  finally show ?thesis unfolding ornamentGroups_def gen by simp
qed

text \<open>Under \<open>halfAtSeven\<close> the first two ornaments of the first group are both placed.\<close>

lemma halfAtSeven_two:
  assumes "0 < R" and "R \<le> 1" and "2 \<le> n"
  shows "\<exists>ys. occupiedPositions (placeLoop halfAtSeven R n 0 emptyPlacing) =
     [\<lparr> pos = (6.5, - 8, 0), radius = R \<rparr>, \<lparr> pos = (3.5, 0, 0), radius = R \<rparr>] @ ys"
proof -
  let ?first = "placeOne halfAtSeven R emptyPlacing"
  let ?second = "placeOne halfAtSeven R ?first"
  have e: "occupiedPositions emptyPlacing = []" "cursor emptyPlacing = 0"
    by (simp_all add: emptyPlacing_def)
  have nc: "\<not> collision (candidate halfAtSeven (cursor emptyPlacing + 2 * 0)) R
      (occupiedPositions emptyPlacing)"
    by (simp add: e)
  have f1: "occupiedPositions ?first = [\<lparr> pos = (6.5, - 8, 0), radius = R \<rparr>]"
    "cursor ?first = 7"
    using placeOne_fit(2,3) [of 0 halfAtSeven emptyPlacing R, OF _ _ nc]
    by (simp_all add: candidate_halfAtSeven e)
  have "(2::real) \<le> sqrt 73" by (rule real_le_rsqrt) simp
  then have far: "\<not> distanceTo (3.5, 0, 0) (6.5, - 8, 0) < R + R"
    using assms(2) by (simp add: distanceTo_def power2_eq_square)
  have nc2: "\<not> collision (candidate halfAtSeven (cursor ?first + 2 * 0)) R
      (occupiedPositions ?first)"
    using far by (simp add: f1 candidate_halfAtSeven)
  have f2: "occupiedPositions ?second =
      [\<lparr> pos = (6.5, - 8, 0), radius = R \<rparr>, \<lparr> pos = (3.5, 0, 0), radius = R \<rparr>]"
    using placeOne_fit(2) [of 0 halfAtSeven ?first R, OF _ _ nc2]
    by (simp add: f1 candidate_halfAtSeven)
  have s1: "placeLoop halfAtSeven R n 0 emptyPlacing = placeLoop halfAtSeven R n (0 + 1) ?first"
    using assms(3) by (subst placeLoop.simps) simp
  have s2: "placeLoop halfAtSeven R n (0 + 1) ?first = placeLoop halfAtSeven R n (0 + 1 + 1) ?second"
    using assms(3) by (subst placeLoop.simps) simp
  show ?thesis
    unfolding s1 s2 using placeLoop_keeps [of halfAtSeven R n "0 + 1 + 1" ?second]
    by (simp only: f2)
qed

lemma two_placed:
  "\<exists>ys. placedEntries (ornamentGroups halfAtSeven) =
     [\<lparr> pos = (6.5, - 8, 0), radius = 0.385 \<rparr>, \<lparr> pos = (3.5, 0, 0), radius = 0.385 \<rparr>] @ ys"
proof -
  let ?ga = "placeConfig halfAtSeven (configs ! 0)
      \<lparr> genCursor = 0, genOccupied = [], groups = Map.empty \<rparr>"
  let ?gb = "placeConfig halfAtSeven (configs ! 1) ?ga"
  let ?gc = "placeConfig halfAtSeven (configs ! 2) ?gb"
  let ?gd = "placeConfig halfAtSeven (configs ! 3) ?gc"
  have gen: "generate halfAtSeven = ?gd" by (simp add: generate_def configs_def)
  have c0: "0 < cfgScale (configs ! 0) * 1.1" "cfgScale (configs ! 0) * 1.1 \<le> 1"
    "2 \<le> cfgCount (configs ! 0)" "cfgScale (configs ! 0) * 1.1 = 0.385"
    by (simp_all add: configs_def)
  from halfAtSeven_two [OF c0(1,2,3)] obtain ys1 where
    "genOccupied ?ga =
       [\<lparr> pos = (6.5, - 8, 0), radius = cfgScale (configs ! 0) * 1.1 \<rparr>,
        \<lparr> pos = (3.5, 0, 0), radius = cfgScale (configs ! 0) * 1.1 \<rparr>] @ ys1"
    unfolding placeConfig_first by auto
  then have ga: "genOccupied ?ga =
       [\<lparr> pos = (6.5, - 8, 0), radius = 0.385 \<rparr>, \<lparr> pos = (3.5, 0, 0), radius = 0.385 \<rparr>] @ ys1"
    unfolding c0(4) .
  obtain ys2 where y2: "genOccupied ?gb = genOccupied ?ga @ ys2"
    using placeConfig_keeps by blast
  obtain ys3 where y3: "genOccupied ?gc = genOccupied ?gb @ ys3"
    using placeConfig_keeps by blast
  obtain ys4 where y4: "genOccupied ?gd = genOccupied ?gc @ ys4"
    using placeConfig_keeps by blast
  have "genOccupied (generate halfAtSeven) =
      [\<lparr> pos = (6.5, - 8, 0), radius = 0.385 \<rparr>, \<lparr> pos = (3.5, 0, 0), radius = 0.385 \<rparr>] @
      (ys1 @ ys2 @ ys3 @ ys4)"
    unfolding gen y4 y3 y2 ga by simp
  then show ?thesis unfolding placed_is_occupied by blast
qed

text \<open>
  Claim C6: over the four configs in their fixed order, any two accepted formed
  positions, of the same group or of different ones, are at least the sum of their
  radii apart, the radius of an entry being the scale of its config times 1.1; these
  entries are exactly the occupied positions that the collision test used. A group
  holds at most the requested count. An entity whose 100 candidates all collide is
  dropped: the state keeps its arrays and the cursor moves on by 200; otherwise the
  first candidate that fits is appended. Some random source leaves the gold group with
  fewer than its 250 ornaments.
\<close>

theorem ornament_layout_clear:
  "(\<forall>i j. i < j \<and> j < length (placedEntries (ornamentGroups rnd)) \<longrightarrow>
      radius (placedEntries (ornamentGroups rnd) ! i) +
      radius (placedEntries (ornamentGroups rnd) ! j)
        \<le> distanceTo (pos (placedEntries (ornamentGroups rnd) ! i))
             (pos (placedEntries (ornamentGroups rnd) ! j))) \<and>
   placedEntries (ornamentGroups rnd) = genOccupied (generate rnd) \<and>
   (\<forall>c \<in> set configs. \<exists>d. ornamentGroups rnd (cfgId c) = Some d \<and>
      length (targetPositions d) \<le> cfgCount c) \<and>
   ((\<forall>m < 100. collision (candidate rnd (cursor st + 2 * m)) R (occupiedPositions st)) \<longrightarrow>
      placeOne rnd R st = st \<lparr> cursor := cursor st + 200 \<rparr>) \<and>
   (m0 < 100 \<and>
    (\<forall>m < m0. collision (candidate rnd (cursor st + 2 * m)) R (occupiedPositions st)) \<and>
    \<not> collision (candidate rnd (cursor st + 2 * m0)) R (occupiedPositions st) \<longrightarrow>
      targetPositions (placeOne rnd R st) =
        targetPositions st @ [candidate rnd (cursor st + 2 * m0)] \<and>
      occupiedPositions (placeOne rnd R st) =
        occupiedPositions st @ [\<lparr> pos = candidate rnd (cursor st + 2 * m0), radius = R \<rparr>]) \<and>
   (\<exists>rnd' d. ornamentGroups rnd' ''gold'' = Some d \<and> length (targetPositions d) < 250)"
proof -
  have a: "\<forall>i j. i < j \<and> j < length (placedEntries (ornamentGroups rnd)) \<longrightarrow>
      radius (placedEntries (ornamentGroups rnd) ! i) +
      radius (placedEntries (ornamentGroups rnd) ! j)
        \<le> distanceTo (pos (placedEntries (ornamentGroups rnd) ! i))
             (pos (placedEntries (ornamentGroups rnd) ! j))"
    using generate_spec [of rnd] unfolding placed_is_occupied pairwiseClear_def by blast
  have b: "\<forall>c \<in> set configs. \<exists>d. ornamentGroups rnd (cfgId c) = Some d \<and>
      length (targetPositions d) \<le> cfgCount c"
  proof -
    from generate_spec [of rnd] obtain d1 d2 d3 d4 where
      g: "groups (generate rnd) =
         [''gold'' \<mapsto> d1, ''red'' \<mapsto> d2, ''silver'' \<mapsto> d3, ''box'' \<mapsto> d4]"
      and l: "length (targetPositions d1) \<le> 250" "length (targetPositions d2) \<le> 180"
        "length (targetPositions d3) \<le> 100" "length (targetPositions d4) \<le> 60"
      by blast
    show ?thesis using l by (simp add: ornamentGroups_def g configs_def)
  qed
  have c: "\<exists>rnd' d. ornamentGroups rnd' ''gold'' = Some d \<and> length (targetPositions d) < 250"
    using gold_short by force
  have d: "(\<forall>m < 100. collision (candidate rnd (cursor st + 2 * m)) R (occupiedPositions st)) \<longrightarrow>
      placeOne rnd R st = st \<lparr> cursor := cursor st + 200 \<rparr>"
    using placeOne_drop by blast
  have e: "m0 < 100 \<and>
    (\<forall>m < m0. collision (candidate rnd (cursor st + 2 * m)) R (occupiedPositions st)) \<and>
    \<not> collision (candidate rnd (cursor st + 2 * m0)) R (occupiedPositions st) \<longrightarrow>
      targetPositions (placeOne rnd R st) =
        targetPositions st @ [candidate rnd (cursor st + 2 * m0)] \<and>
      occupiedPositions (placeOne rnd R st) =
        occupiedPositions st @ [\<lparr> pos = candidate rnd (cursor st + 2 * m0), radius = R \<rparr>]"
    using placeOne_fit(1,2) [of m0 rnd st R] by blast
  from a placed_is_occupied [of rnd] b d e c show ?thesis by (intro conjI)
qed

text \<open>
  Witness for C6: with the random numbers 0 except for 1/2 at index 7, the first two
  gold ornaments are placed at (6.5, -8, 0) and (3.5, 0, 0), the square root of 73
  apart, well over 0.385 + 0.385. With all random numbers 0 every candidate is
  (6.5, -8, 0), so the second ornament is dropped after 100 attempts.
\<close>

theorem ornament_layout_clear_witness:
  "(0::nat) < 1 \<and> 1 < length (placedEntries (ornamentGroups halfAtSeven)) \<and>
   placedEntries (ornamentGroups halfAtSeven) ! 0 = \<lparr> pos = (6.5, - 8, 0), radius = 0.385 \<rparr> \<and>
   placedEntries (ornamentGroups halfAtSeven) ! 1 = \<lparr> pos = (3.5, 0, 0), radius = 0.385 \<rparr> \<and>
   radius (placedEntries (ornamentGroups halfAtSeven) ! 0) +
   radius (placedEntries (ornamentGroups halfAtSeven) ! 1)
     \<le> distanceTo (pos (placedEntries (ornamentGroups halfAtSeven) ! 0))
          (pos (placedEntries (ornamentGroups halfAtSeven) ! 1)) \<and>
   (\<exists>d. ornamentGroups halfAtSeven ''gold'' = Some d \<and> length (targetPositions d) \<le> 250) \<and>
   targetPositions (placeOne halfAtSeven 0.385 emptyPlacing) = [(6.5, - 8, 0)] \<and>
   placeOne noRandom 0.385 (placeOne noRandom 0.385 emptyPlacing) =
     (placeOne noRandom 0.385 emptyPlacing)
       \<lparr> cursor := cursor (placeOne noRandom 0.385 emptyPlacing) + 200 \<rparr>"
proof -
  from two_placed obtain ys where E: "placedEntries (ornamentGroups halfAtSeven) =
     [\<lparr> pos = (6.5, - 8, 0), radius = 0.385 \<rparr>, \<lparr> pos = (3.5, 0, 0), radius = 0.385 \<rparr>] @ ys"
    by blast
  have len: "1 < length (placedEntries (ornamentGroups halfAtSeven))"
    and e0: "placedEntries (ornamentGroups halfAtSeven) ! 0 =
      \<lparr> pos = (6.5, - 8, 0), radius = 0.385 \<rparr>"
    and e1: "placedEntries (ornamentGroups halfAtSeven) ! 1 =
      \<lparr> pos = (3.5, 0, 0), radius = 0.385 \<rparr>"
    unfolding E by simp_all
  have gold: "configs ! 0 \<in> set configs" "cfgId (configs ! 0) = ''gold''"
    "cfgCount (configs ! 0) = 250"
    by (simp_all add: configs_def)
  have e: "occupiedPositions emptyPlacing = []" "targetPositions emptyPlacing = []"
    "cursor emptyPlacing = 0"
    by (simp_all add: emptyPlacing_def)
  note first = ornament_layout_clear [of halfAtSeven emptyPlacing "0.385" 0]
  have pair: "radius (placedEntries (ornamentGroups halfAtSeven) ! 0) +
      radius (placedEntries (ornamentGroups halfAtSeven) ! 1)
        \<le> distanceTo (pos (placedEntries (ornamentGroups halfAtSeven) ! 0))
             (pos (placedEntries (ornamentGroups halfAtSeven) ! 1))"
    using first len by blast
  have cnt: "\<exists>d. ornamentGroups halfAtSeven ''gold'' = Some d \<and> length (targetPositions d) \<le> 250"
    using first gold by metis
  have fit: "targetPositions (placeOne halfAtSeven 0.385 emptyPlacing) = [(6.5, - 8, 0)]"
    using first by (simp add: e candidate_halfAtSeven)
  note second = ornament_layout_clear [of noRandom emptyPlacing "0.385" 0]
  have o: "occupiedPositions (placeOne noRandom 0.385 emptyPlacing) =
      [\<lparr> pos = (6.5, - 8, 0), radius = 0.385 \<rparr>]"
    using second by (simp add: e candidate_noRandom)
  have all: "\<forall>m < 100. collision (candidate noRandom
      (cursor (placeOne noRandom 0.385 emptyPlacing) + 2 * m)) 0.385
      (occupiedPositions (placeOne noRandom 0.385 emptyPlacing))"
    unfolding o candidate_noRandom by (simp add: distanceTo_self)
  note third = ornament_layout_clear [of noRandom "placeOne noRandom 0.385 emptyPlacing" "0.385" 0]
  have drop: "placeOne noRandom 0.385 (placeOne noRandom 0.385 emptyPlacing) =
     (placeOne noRandom 0.385 emptyPlacing)
       \<lparr> cursor := cursor (placeOne noRandom 0.385 emptyPlacing) + 200 \<rparr>"
    using third all by blast
  from len e0 e1 pair cnt fit drop show ?thesis by simp
qed

end
